theory Spec2Isabelle
  imports Complex_Main "HOL-Library.AList"
begin

section \<open>Strings and the canonicalizer\<close>

text \<open>
  A JavaScript string is modelled as a list of 8-bit characters, read as the code units
  U+0000 to U+00FF. In that range the white space of \<^verbatim>\<open>\s\<close> and of
  \<^verbatim>\<open>trim()\<close> is TAB, LF, VT, FF, CR, SPACE and NBSP; \<^verbatim>\<open>\w\<close> is
  \<^verbatim>\<open>[A-Za-z0-9_]\<close>; \<^verbatim>\<open>toLowerCase()\<close> adds 0x20 to A-Z and to
  U+00C0..U+00DE except U+00D7.
\<close>

definition is_space :: "char \<Rightarrow> bool" where
  "is_space c =
     (c \<in> set [CHR 0x09, CHR 0x0A, CHR 0x0B, CHR 0x0C, CHR 0x0D, CHR 0x20, CHR 0xA0])"

definition is_word :: "char \<Rightarrow> bool" where
  "is_word c =
     (c \<in> set ''abcdefghijklmnopqrstuvwxyzABCDEFGHIJKLMNOPQRSTUVWXYZ0123456789_'')"

definition toLowerCase_char :: "char \<Rightarrow> char" where
  "toLowerCase_char c =
     (let n = (of_char c :: nat) in
      if (65 \<le> n \<and> n \<le> 90) \<or> (192 \<le> n \<and> n \<le> 222 \<and> n \<noteq> 215)
      then (case c of Char b0 b1 b2 b3 b4 b5 b6 b7 \<Rightarrow> Char b0 b1 b2 b3 b4 True b6 b7)
      else c)"

definition toLowerCase :: "string \<Rightarrow> string" where
  "toLowerCase s = map toLowerCase_char s"

definition trim :: "string \<Rightarrow> string" where
  "trim s = rev (dropWhile is_space (rev (dropWhile is_space s)))"

text \<open>
  \<^verbatim>\<open>.replace(/\s+/g, ' ')\<close>: every maximal run of white space becomes one space.
\<close>

function collapse_ws :: "string \<Rightarrow> string" where
  "collapse_ws [] = []"
| "collapse_ws (c # cs) =
     (if is_space c then CHR '' '' # collapse_ws (dropWhile is_space cs)
      else c # collapse_ws cs)"
  by pat_completeness auto
termination
  by (relation "measure length") (auto simp: length_dropWhile_le less_Suc_eq_le)

text \<open>\<^verbatim>\<open>.replace(/[^\w\s-]/g, '')\<close>: every other character is deleted.\<close>

definition strip_special :: "string \<Rightarrow> string" where
  "strip_special s = filter (\<lambda>c. is_word c \<or> is_space c \<or> c = CHR ''-'') s"

text \<open>
  \<^verbatim>\<open>normalizeName\<close> (the same body in NodeRepository, EdgeRepository and
  AgentOrchestrator):
  \<^verbatim>\<open>name.toLowerCase().trim().replace(/\s+/g, ' ').replace(/[^\w\s-]/g, '')\<close>.
\<close>

definition normalizeName :: "string \<Rightarrow> string" where
  "normalizeName name = strip_special (collapse_ws (trim (toLowerCase name)))"


section \<open>Data model\<close>

text \<open>
  A UUID is an abstract identifier; \<^verbatim>\<open>uuid_generate_v4()\<close> is a supply of fresh ones
  (the counter \<open>next_uuid\<close> of the database). Confidences are the real numbers that the
  floats denote. Time stamp columns are left out.
\<close>

type_synonym uuid = nat

text \<open>
  A JavaScript number: a real number (the value that the double denotes), one of the two
  infinities, or \<^verbatim>\<open>NaN\<close>. The two zeros are not told apart.
\<close>

datatype number = Num real | PosInf | NegInf | NaN

text \<open>
  A value as \<^verbatim>\<open>JSON.parse\<close> returns it and as the program passes it on (only then can
  a number be \<^verbatim>\<open>NaN\<close>).
\<close>

datatype json =
    JNull
  | JBool bool
  | JNum number
  | JStr string
  | JArr "json list"
  | JObj "(string \<times> json) list"

text \<open>A \<^verbatim>\<open>Record<string, any>\<close> / JSONB object: a map of its top-level keys.\<close>

type_synonym jsonb = "string \<rightharpoonup> json"

datatype error =
    ExternalServiceError string
  | ParseError string
  | PostgresError string

fun message :: "error \<Rightarrow> string" where
  "message (ExternalServiceError m) = m"
| "message (ParseError m) = m"
| "message (PostgresError m) = m"

record node =
  node_id :: uuid
  node_type :: string
  node_name :: string
  canonical_name :: string
  node_metadata :: jsonb
  extraction_confidence :: real
  node_extracted_by :: string

record edge =
  edge_id :: uuid
  edge_type :: string
  source_id :: uuid
  target_id :: uuid
  edge_description :: "string option"
  edge_evidence :: "string option"
  edge_confidence :: real
  edge_extracted_by :: string
  edge_metadata :: jsonb

record paper =
  paper_id :: uuid
  title :: string
  abstract :: "string option"
  full_text :: "string option"
  authors :: "string list"
  arxiv_id :: "string option"
  publication_date :: "int option"
  venue :: "string option"
  processing_status :: string

record extraction_log =
  log_paper_id :: uuid
  agent_name :: string
  extraction_type :: string
  input_data :: "(string \<times> nat) list"
  output_data :: "(string \<times> nat) list"
  success :: bool
  error_message :: "string option"

record db =
  nodes :: "node list"
  edges :: "edge list"
  papers :: "paper list"
  extraction_logs :: "extraction_log list"
  next_uuid :: uuid

definition empty_db :: db where
  "empty_db = \<lparr>nodes = [], edges = [], papers = [], extraction_logs = [], next_uuid = 0\<rparr>"

text \<open>The enums \<^verbatim>\<open>node_type\<close> and \<^verbatim>\<open>edge_type\<close> of the schema.\<close>

definition node_type_enum :: "string list" where
  "node_type_enum =
     [''paper'', ''concept'', ''method'', ''dataset'', ''metric'', ''author'',
      ''technique'', ''application'', ''challenge'', ''result'']"

definition edge_type_enum :: "string list" where
  "edge_type_enum =
     [''cites'', ''improves_on'', ''extends'', ''compares_with'', ''builds_upon'',
      ''contradicts'', ''introduces'', ''applies'', ''evaluates'', ''addresses'',
      ''related_to'', ''enables'', ''requires'', ''alternative_to'', ''generalizes'',
      ''specializes'', ''outperforms'', ''combines_with'', ''replaces'', ''authored_by'',
      ''uses_dataset'', ''measures_with'', ''solves'', ''inspired_by'']"

text \<open>JavaScript's \<^verbatim>\<open>x || null\<close> on an optional string: absent and empty both give null.\<close>

definition or_null :: "string option \<Rightarrow> string option" where
  "or_null x = (case x of None \<Rightarrow> None | Some s \<Rightarrow> if s = [] then None else Some s)"

text \<open>SQL \<^verbatim>\<open>COALESCE(a, b)\<close>.\<close>

definition coalesce :: "'a option \<Rightarrow> 'a option \<Rightarrow> 'a option" where
  "coalesce a b = (case a of Some x \<Rightarrow> Some x | None \<Rightarrow> b)"

text \<open>
  \<^verbatim>\<open>Math.min\<close> and \<^verbatim>\<open>Math.max\<close> of two numbers: \<^verbatim>\<open>NaN\<close> as soon as one of them is
  \<^verbatim>\<open>NaN\<close>.
\<close>

fun Math_min :: "number \<Rightarrow> number \<Rightarrow> number" where
  "Math_min NaN b = NaN"
| "Math_min a NaN = NaN"
| "Math_min NegInf b = NegInf"
| "Math_min a NegInf = NegInf"
| "Math_min PosInf b = b"
| "Math_min a PosInf = a"
| "Math_min (Num x) (Num y) = Num (min x y)"

fun Math_max :: "number \<Rightarrow> number \<Rightarrow> number" where
  "Math_max NaN b = NaN"
| "Math_max a NaN = NaN"
| "Math_max PosInf b = PosInf"
| "Math_max a PosInf = PosInf"
| "Math_max NegInf b = b"
| "Math_max a NegInf = a"
| "Math_max (Num x) (Num y) = Num (max x y)"

text \<open>
  The truth value of a parsed value, as \<^verbatim>\<open>||\<close> reads it: \<^verbatim>\<open>null\<close>, \<^verbatim>\<open>false\<close>,
  0, \<^verbatim>\<open>NaN\<close> and the empty string are falsy, every array and object is truthy.
\<close>

fun truthy :: "json \<Rightarrow> bool" where
  "truthy JNull = False"
| "truthy (JBool b) = b"
| "truthy (JNum n) = (n \<noteq> Num 0 \<and> n \<noteq> NaN)"
| "truthy (JStr s) = (s \<noteq> [])"
| "truthy (JArr xs) = True"
| "truthy (JObj kvs) = True"

text \<open>
  \<^verbatim>\<open>ToNumber\<close>, which \<^verbatim>\<open>Math.min\<close> and \<^verbatim>\<open>Math.max\<close> apply to their arguments. An object
  that \<^verbatim>\<open>JSON.parse\<close> built converts to the string \<^verbatim>\<open>[object Object]\<close> and so to
  \<^verbatim>\<open>NaN\<close>. A string of white space only is 0; a numeric literal has a digit or is an
  \<^verbatim>\<open>Infinity\<close>, so a string with neither a digit nor the letter I is \<^verbatim>\<open>NaN\<close>. The value
  of the other strings, and of an array (the value of its elements joined by commas), is
  left to the parameter \<open>rt\<close>, the conversion of the runtime.
\<close>

fun ToNumber :: "(json \<Rightarrow> number) \<Rightarrow> json \<Rightarrow> number" where
  "ToNumber rt JNull = Num 0"
| "ToNumber rt (JBool b) = Num (if b then 1 else 0)"
| "ToNumber rt (JNum n) = n"
| "ToNumber rt (JStr s) =
     (if list_all is_space s then Num 0
      else if list_ex (\<lambda>c. c \<in> set ''0123456789I'') s then rt (JStr s)
      else NaN)"
| "ToNumber rt (JArr xs) = rt (JArr xs)"
| "ToNumber rt (JObj kvs) = NaN"

text \<open>
  \<^verbatim>\<open>a < b\<close> and \<^verbatim>\<open>a + b\<close> on numbers. A comparison with \<^verbatim>\<open>NaN\<close> is false and a sum
  with \<^verbatim>\<open>NaN\<close> is \<^verbatim>\<open>NaN\<close>. The sum of two real numbers is their exact sum (which is what
  the doubles give on the integers below \<^verbatim>\<open>2^53\<close>).
\<close>

fun js_lt :: "number \<Rightarrow> number \<Rightarrow> bool" where
  "js_lt NaN b = False"
| "js_lt a NaN = False"
| "js_lt (Num x) (Num y) = (x < y)"
| "js_lt (Num x) PosInf = True"
| "js_lt (Num x) NegInf = False"
| "js_lt PosInf b = False"
| "js_lt NegInf NegInf = False"
| "js_lt NegInf b = True"

fun js_add :: "number \<Rightarrow> number \<Rightarrow> number" where
  "js_add NaN b = NaN"
| "js_add a NaN = NaN"
| "js_add (Num x) (Num y) = Num (x + y)"
| "js_add PosInf NegInf = NaN"
| "js_add NegInf PosInf = NaN"
| "js_add PosInf b = PosInf"
| "js_add a PosInf = PosInf"
| "js_add NegInf b = NegInf"
| "js_add a NegInf = NegInf"


section \<open>Node store\<close>

definition node_key_is :: "string \<Rightarrow> string \<Rightarrow> node \<Rightarrow> bool" where
  "node_key_is ty cn n = (node_type n = ty \<and> canonical_name n = cn)"

text \<open>The rows a key selects, and the constraint \<^verbatim>\<open>UNIQUE(type, canonical_name)\<close>.\<close>

definition nodes_with_key :: "string \<Rightarrow> string \<Rightarrow> db \<Rightarrow> node list" where
  "nodes_with_key ty cn d = filter (node_key_is ty cn) (nodes d)"

definition unique_node_keys :: "db \<Rightarrow> bool" where
  "unique_node_keys d = distinct (map (\<lambda>n. (node_type n, canonical_name n)) (nodes d))"

text \<open>
  \<^verbatim>\<open>NodeRepository.upsert\<close>: \<^verbatim>\<open>INSERT ... ON CONFLICT (type, canonical_name) DO UPDATE SET
  metadata = nodes.metadata || EXCLUDED.metadata, extraction_confidence = GREATEST(...)
  RETURNING id\<close>. A type outside the enum is rejected by the database; the method itself
  checks nothing.
\<close>

definition upsert ::
  "string \<Rightarrow> string \<Rightarrow> jsonb \<Rightarrow> string \<Rightarrow> real \<Rightarrow> db \<Rightarrow> (error + uuid) \<times> db" where
  "upsert ty name metadata extractedBy confidence d =
     (let canonicalName = normalizeName name in
      if ty \<notin> set node_type_enum
      then (Inl (PostgresError ''invalid input value for enum node_type''), d)
      else
        (case find (node_key_is ty canonicalName) (nodes d) of
           Some old \<Rightarrow>
             (Inr (node_id old),
              d\<lparr>nodes :=
                  map (\<lambda>n. if node_key_is ty canonicalName n
                           then n\<lparr>node_metadata := node_metadata n ++ metadata,
                                  extraction_confidence :=
                                    max (extraction_confidence n) confidence\<rparr>
                           else n)
                      (nodes d)\<rparr>)
         | None \<Rightarrow>
             (Inr (next_uuid d),
              d\<lparr>nodes :=
                  nodes d @
                  [\<lparr>node_id = next_uuid d, node_type = ty, node_name = name,
                    canonical_name = canonicalName, node_metadata = metadata,
                    extraction_confidence = confidence,
                    node_extracted_by = extractedBy\<rparr>],
                next_uuid := Suc (next_uuid d)\<rparr>)))"


text \<open>\<^verbatim>\<open>NodeRepository.findById\<close>: \<^verbatim>\<open>SELECT * FROM nodes WHERE id = ... LIMIT 1\<close>.\<close>

definition NodeRepository_findById :: "uuid \<Rightarrow> db \<Rightarrow> node option" where
  "NodeRepository_findById i d = find (\<lambda>n. node_id n = i) (nodes d)"


section \<open>Edge store\<close>

definition edge_key_is :: "string \<Rightarrow> uuid \<Rightarrow> uuid \<Rightarrow> edge \<Rightarrow> bool" where
  "edge_key_is ty s t e = (edge_type e = ty \<and> source_id e = s \<and> target_id e = t)"

definition edges_with_key :: "string \<Rightarrow> uuid \<Rightarrow> uuid \<Rightarrow> db \<Rightarrow> edge list" where
  "edges_with_key ty s t d = filter (edge_key_is ty s t) (edges d)"

definition unique_edge_keys :: "db \<Rightarrow> bool" where
  "unique_edge_keys d =
     distinct (map (\<lambda>e. (edge_type e, source_id e, target_id e)) (edges d))"

text \<open>
  \<^verbatim>\<open>EdgeRepository.create\<close>: \<^verbatim>\<open>INSERT ... VALUES (..., ${description || null},
  ${evidence || null}, ...) ON CONFLICT (type, source_id, target_id) DO UPDATE SET
  description = COALESCE(EXCLUDED.description, edges.description),
  evidence = COALESCE(EXCLUDED.evidence, edges.evidence),
  confidence = GREATEST(edges.confidence, EXCLUDED.confidence),
  metadata = edges.metadata || EXCLUDED.metadata RETURNING id\<close>.
  The database rejects a type outside the enum and, for a new row, an endpoint that is
  no node (\<^verbatim>\<open>REFERENCES nodes(id)\<close>).
\<close>

definition EdgeRepository_create ::
  "string \<Rightarrow> uuid \<Rightarrow> uuid \<Rightarrow> string option \<Rightarrow> string option \<Rightarrow> real \<Rightarrow> string \<Rightarrow> jsonb
     \<Rightarrow> db \<Rightarrow> (error + uuid) \<times> db" where
  "EdgeRepository_create ty sourceId targetId description evidence confidence extractedBy
       metadata d =
     (if ty \<notin> set edge_type_enum
      then (Inl (PostgresError ''invalid input value for enum edge_type''), d)
      else
        (case find (edge_key_is ty sourceId targetId) (edges d) of
           Some old \<Rightarrow>
             (Inr (edge_id old),
              d\<lparr>edges :=
                  map (\<lambda>e. if edge_key_is ty sourceId targetId e
                           then e\<lparr>edge_description :=
                                    coalesce (or_null description) (edge_description e),
                                  edge_evidence :=
                                    coalesce (or_null evidence) (edge_evidence e),
                                  edge_confidence := max (edge_confidence e) confidence,
                                  edge_metadata := edge_metadata e ++ metadata\<rparr>
                           else e)
                      (edges d)\<rparr>)
         | None \<Rightarrow>
             if sourceId \<notin> node_id ` set (nodes d) \<or> targetId \<notin> node_id ` set (nodes d)
             then (Inl (PostgresError ''violates foreign key constraint''), d)
             else
               (Inr (next_uuid d),
                d\<lparr>edges :=
                    edges d @
                    [\<lparr>edge_id = next_uuid d, edge_type = ty, source_id = sourceId,
                      target_id = targetId, edge_description = or_null description,
                      edge_evidence = or_null evidence, edge_confidence = confidence,
                      edge_extracted_by = extractedBy, edge_metadata = metadata\<rparr>],
                  next_uuid := Suc (next_uuid d)\<rparr>)))"


section \<open>Extracted candidates and the outside world\<close>

text \<open>
  What \<^verbatim>\<open>parseJSON\<close> returns for one candidate of a reply whose confidences are
  numbers: the language model may leave the confidence, the description, the context
  and the metadata out. A description or a context is any parsed value.
\<close>

record raw_entity =
  re_name :: string
  re_type :: string
  re_description :: "json option"
  re_confidence :: "real option"
  re_context :: "json option"
  re_metadata :: "jsonb option"

record raw_relationship =
  rr_source :: string
  rr_target :: string
  rr_type :: string
  rr_description :: "string option"
  rr_evidence :: "string option"
  rr_confidence :: "real option"
  rr_metadata :: "jsonb option"

text \<open>\<^verbatim>\<open>ExtractedEntity\<close> and \<^verbatim>\<open>ExtractedRelationship\<close>.\<close>

record extracted_entity =
  ent_name :: string
  ent_type :: string
  ent_description :: "json option"
  ent_confidence :: real
  ent_context :: "json option"
  ent_metadata :: "jsonb option"

record extracted_relationship =
  rel_source :: string
  rel_target :: string
  rel_type :: string
  rel_description :: "string option"
  rel_evidence :: "string option"
  rel_confidence :: real
  rel_metadata :: "jsonb option"

record paper_ref =
  ref_title :: string
  ref_arxiv_id :: "string option"

record paper_analysis =
  pa_paper_id :: uuid
  pa_entities :: "extracted_entity list"
  pa_relationships :: "extracted_relationship list"

text \<open>
  The collaborators that are no code of the repository: the language model behind
  \<^verbatim>\<open>callLLM\<close> followed by \<^verbatim>\<open>parseJSON\<close> (it answers with the parsed candidates or
  throws), and the ranked \<^verbatim>\<open>ILIKE\<close>/\<^verbatim>\<open>similarity\<close> query of \<^verbatim>\<open>NodeRepository.search\<close>.
\<close>

record world =
  entity_llm :: "paper \<Rightarrow> string \<Rightarrow> error + raw_entity list"
  relationship_llm ::
    "paper \<Rightarrow> extracted_entity list \<Rightarrow> string \<Rightarrow> paper_ref list option
       \<Rightarrow> error + raw_relationship list"
  search :: "node list \<Rightarrow> string \<Rightarrow> nat \<Rightarrow> node list"


section \<open>Entity resolver and batch creation of edges\<close>

text \<open>\<^verbatim>\<open>EdgeRepository.resolveEntityId\<close>; \<open>None\<close> is \<^verbatim>\<open>null\<close>.\<close>

definition resolveEntityId ::
  "world \<Rightarrow> string \<Rightarrow> uuid \<Rightarrow> (string \<rightharpoonup> uuid) \<Rightarrow> db \<Rightarrow> uuid option" where
  "resolveEntityId w entityName paperId entityNameToIdMap d =
     (let normalized = normalizeName entityName in
      case entityNameToIdMap normalized of
        Some i \<Rightarrow> Some i
      | None \<Rightarrow>
          (let paperNode = NodeRepository_findById paperId d in
           if (case paperNode of
                 None \<Rightarrow> False
               | Some n \<Rightarrow> normalizeName (node_name n) = normalized)
           then Some paperId
           else
             (case search w (nodes d) entityName 5 of
                [] \<Rightarrow> None
              | n # _ \<Rightarrow> Some (node_id n))))"

text \<open>
  \<^verbatim>\<open>EdgeRepository.createRelationships\<close>: the loop body is a \<^verbatim>\<open>try\<close> whose \<^verbatim>\<open>catch\<close>
  only logs; \<^verbatim>\<open>if (!sourceId || !targetId) continue\<close> skips the relationship.
\<close>

fun createRelationships_loop ::
  "world \<Rightarrow> extracted_relationship list \<Rightarrow> uuid \<Rightarrow> (string \<rightharpoonup> uuid) \<Rightarrow> string \<Rightarrow> nat
     \<Rightarrow> db \<Rightarrow> nat \<times> db" where
  "createRelationships_loop w [] paperId m extractedBy createdCount d = (createdCount, d)"
| "createRelationships_loop w (rel # rest) paperId m extractedBy createdCount d =
     (let sourceId = resolveEntityId w (rel_source rel) paperId m d;
          targetId = resolveEntityId w (rel_target rel) paperId m d
      in case (sourceId, targetId) of
           (Some s, Some t) \<Rightarrow>
             (case EdgeRepository_create (rel_type rel) s t (rel_description rel)
                     (rel_evidence rel) (rel_confidence rel) extractedBy
                     (case rel_metadata rel of None \<Rightarrow> Map.empty | Some md \<Rightarrow> md) d of
                (Inr _, d') \<Rightarrow>
                  createRelationships_loop w rest paperId m extractedBy (createdCount + 1) d'
              | (Inl _, d') \<Rightarrow>
                  createRelationships_loop w rest paperId m extractedBy createdCount d')
         | _ \<Rightarrow> createRelationships_loop w rest paperId m extractedBy createdCount d)"

definition createRelationships ::
  "world \<Rightarrow> extracted_relationship list \<Rightarrow> uuid \<Rightarrow> (string \<rightharpoonup> uuid) \<Rightarrow> string \<Rightarrow> db
     \<Rightarrow> nat \<times> db" where
  "createRelationships w relationships paperId m extractedBy d =
     createRelationships_loop w relationships paperId m extractedBy 0 d"

text \<open>
  \<^verbatim>\<open>NodeRepository.upsertEntities\<close>: the metadata object is
  \<^verbatim>\<open>{description, context, ...entity.metadata}\<close>. \<^verbatim>\<open>JSON.stringify\<close> drops a key whose
  value is undefined and keeps every other one, also one whose value is \<^verbatim>\<open>null\<close>; a
  failing upsert throws out of the loop.
\<close>

definition entity_node_metadata :: "extracted_entity \<Rightarrow> jsonb" where
  "entity_node_metadata entity =
     ((case ent_description entity of
         None \<Rightarrow> Map.empty
       | Some x \<Rightarrow> [''description'' \<mapsto> x]) ++
      (case ent_context entity of
         None \<Rightarrow> Map.empty
       | Some x \<Rightarrow> [''context'' \<mapsto> x])) ++
     (case ent_metadata entity of None \<Rightarrow> Map.empty | Some md \<Rightarrow> md)"

fun upsertEntities_loop ::
  "extracted_entity list \<Rightarrow> string \<Rightarrow> (string \<rightharpoonup> uuid) \<Rightarrow> db
     \<Rightarrow> (error + (string \<rightharpoonup> uuid)) \<times> db" where
  "upsertEntities_loop [] extractedBy nameToIdMap d = (Inr nameToIdMap, d)"
| "upsertEntities_loop (entity # rest) extractedBy nameToIdMap d =
     (case upsert (ent_type entity) (ent_name entity) (entity_node_metadata entity)
             extractedBy (ent_confidence entity) d of
        (Inl e, d') \<Rightarrow> (Inl e, d')
      | (Inr nodeId, d') \<Rightarrow>
          upsertEntities_loop rest extractedBy
            (nameToIdMap(normalizeName (ent_name entity) \<mapsto> nodeId)) d')"

definition upsertEntities ::
  "extracted_entity list \<Rightarrow> string \<Rightarrow> db \<Rightarrow> (error + (string \<rightharpoonup> uuid)) \<times> db" where
  "upsertEntities entities extractedBy d =
     upsertEntities_loop entities extractedBy Map.empty d"


section \<open>Extraction agents\<close>

text \<open>
  \<^verbatim>\<open>Math.max(0, Math.min(1, x.confidence || 0.5))\<close>, applied to whatever \<^verbatim>\<open>parseJSON\<close>
  found under the key \<^verbatim>\<open>confidence\<close> (\<^verbatim>\<open>parseJSON\<close> is a \<^verbatim>\<open>JSON.parse\<close> with a type
  cast that checks nothing); \<open>None\<close> is a candidate without that key.
\<close>

definition or_default :: "json option \<Rightarrow> json" where
  "or_default c =
     (case c of
        None \<Rightarrow> JNum (Num (1/2))
      | Some v \<Rightarrow> if truthy v then v else JNum (Num (1/2)))"

definition normalize_confidence :: "(json \<Rightarrow> number) \<Rightarrow> json option \<Rightarrow> number" where
  "normalize_confidence rt c = Math_max (Num 0) (Math_min (Num 1) (ToNumber rt (or_default c)))"

text \<open>
  The candidate that both agents return for a parsed candidate \<open>x\<close>,
  \<^verbatim>\<open>{...x, confidence: Math.max(0, Math.min(1, x.confidence || 0.5)), metadata:
  x.metadata || {}}\<close>, as the map of its keys.
\<close>

definition normalize_candidate :: "(json \<Rightarrow> number) \<Rightarrow> jsonb \<Rightarrow> jsonb" where
  "normalize_candidate rt x =
     x(''confidence'' \<mapsto> JNum (normalize_confidence rt (x ''confidence'')),
       ''metadata'' \<mapsto>
         (case x ''metadata'' of
            None \<Rightarrow> JObj []
          | Some v \<Rightarrow> if truthy v then v else JObj []))"

text \<open>
  The same expression on a reply that keeps to the declared type
  \<^verbatim>\<open>confidence: number\<close>, or leaves the confidence out: a missing confidence and the
  number 0 are both falsy, and the result is a real number again. The records
  \<open>raw_entity\<close> and \<open>raw_relationship\<close> are candidates of such a reply.
\<close>

definition confidence_or_default :: "real option \<Rightarrow> real" where
  "confidence_or_default c =
     (case c of None \<Rightarrow> 0.5 | Some x \<Rightarrow> if x = 0 then 0.5 else x)"

definition normalize_entity :: "raw_entity \<Rightarrow> extracted_entity" where
  "normalize_entity entity =
     \<lparr>ent_name = re_name entity, ent_type = re_type entity,
      ent_description = re_description entity,
      ent_confidence = max 0 (min 1 (confidence_or_default (re_confidence entity))),
      ent_context = re_context entity,
      ent_metadata =
        Some (case re_metadata entity of None \<Rightarrow> Map.empty | Some md \<Rightarrow> md)\<rparr>"

text \<open>\<^verbatim>\<open>EntityExtractorAgent.process\<close>.\<close>

definition EntityExtractorAgent_process ::
  "world \<Rightarrow> paper \<Rightarrow> string \<Rightarrow> error + extracted_entity list" where
  "EntityExtractorAgent_process w p text =
     (case entity_llm w p text of
        Inl e \<Rightarrow> Inl e
      | Inr parsed \<Rightarrow> Inr (map normalize_entity parsed))"

definition normalize_relationship :: "raw_relationship \<Rightarrow> extracted_relationship" where
  "normalize_relationship rel =
     \<lparr>rel_source = rr_source rel, rel_target = rr_target rel, rel_type = rr_type rel,
      rel_description = rr_description rel, rel_evidence = rr_evidence rel,
      rel_confidence = max 0 (min 1 (confidence_or_default (rr_confidence rel))),
      rel_metadata =
        Some (case rr_metadata rel of None \<Rightarrow> Map.empty | Some md \<Rightarrow> md)\<rparr>"

text \<open>
  The filter of \<^verbatim>\<open>RelationshipExtractorAgent.process\<close>: an endpoint exists when it is,
  up to case, the name of an entity or the title of a known paper.
\<close>

definition endpoint_exists ::
  "extracted_entity list \<Rightarrow> paper_ref list option \<Rightarrow> string \<Rightarrow> bool" where
  "endpoint_exists entities existingPapers x =
     ((\<exists>e \<in> set entities. toLowerCase (ent_name e) = toLowerCase x) \<or>
      (case existingPapers of
         None \<Rightarrow> False
       | Some ps \<Rightarrow> (\<exists>p \<in> set ps. toLowerCase (ref_title p) = toLowerCase x)))"

definition RelationshipExtractorAgent_process ::
  "world \<Rightarrow> paper \<Rightarrow> extracted_entity list \<Rightarrow> string \<Rightarrow> paper_ref list option
     \<Rightarrow> error + extracted_relationship list" where
  "RelationshipExtractorAgent_process w p entities text existingPapers =
     (case relationship_llm w p entities text existingPapers of
        Inl e \<Rightarrow> Inl e
      | Inr parsed \<Rightarrow>
          Inr (map normalize_relationship
                 (filter (\<lambda>rel. endpoint_exists entities existingPapers (rr_source rel) \<and>
                                endpoint_exists entities existingPapers (rr_target rel))
                    parsed)))"


section \<open>Orchestrator\<close>

text \<open>
  \<^verbatim>\<open>AgentOrchestrator.validateEntities\<close>. The \<^verbatim>\<open>Map\<close> keeps its keys in insertion order
  and \<^verbatim>\<open>set\<close> on a present key replaces the value in place, which is \<open>AList.update\<close>.
\<close>

definition validate_step ::
  "(string \<times> extracted_entity) list \<Rightarrow> extracted_entity
     \<Rightarrow> (string \<times> extracted_entity) list" where
  "validate_step seen entity =
     (let normalized = normalizeName (ent_name entity) in
      case map_of seen normalized of
        None \<Rightarrow> AList.update normalized entity seen
      | Some existing \<Rightarrow>
          if ent_confidence entity > ent_confidence existing
          then AList.update normalized entity seen
          else seen)"

definition validateEntities :: "extracted_entity list \<Rightarrow> extracted_entity list" where
  "validateEntities entities = map snd (foldl validate_step [] entities)"

text \<open>\<^verbatim>\<open>AgentOrchestrator.validateRelationships\<close>.\<close>

definition validateRelationships ::
  "extracted_relationship list \<Rightarrow> extracted_entity list \<Rightarrow> extracted_relationship list" where
  "validateRelationships relationships entities =
     (let entityNames = set (map (\<lambda>e. normalizeName (ent_name e)) entities) in
      filter (\<lambda>rel. normalizeName (rel_source rel) \<in> entityNames \<or>
                     normalizeName (rel_target rel) \<in> entityNames)
        relationships)"

text \<open>
  \<^verbatim>\<open>AgentOrchestrator.getExistingPapers\<close>: the completed papers,
  \<^verbatim>\<open>ORDER BY publication_date DESC LIMIT 100\<close> (in descending order the NULL dates come
  first).
\<close>

definition date_before :: "int option \<Rightarrow> int option \<Rightarrow> bool" where
  "date_before a b =
     (case a of
        None \<Rightarrow> (case b of None \<Rightarrow> False | Some y \<Rightarrow> True)
      | Some x \<Rightarrow> (case b of None \<Rightarrow> False | Some y \<Rightarrow> y < x))"

fun insert_by_date :: "paper \<Rightarrow> paper list \<Rightarrow> paper list" where
  "insert_by_date p [] = [p]"
| "insert_by_date p (q # qs) =
     (if date_before (publication_date p) (publication_date q) then p # q # qs
      else q # insert_by_date p qs)"

definition order_by_publication_date_desc :: "paper list \<Rightarrow> paper list" where
  "order_by_publication_date_desc ps = foldr insert_by_date ps []"

definition getExistingPapers :: "db \<Rightarrow> paper_ref list" where
  "getExistingPapers d =
     map (\<lambda>p. \<lparr>ref_title = title p, ref_arxiv_id = arxiv_id p\<rparr>)
       (take 100
          (order_by_publication_date_desc
             (filter (\<lambda>p. processing_status p = ''completed'') (papers d))))"

text \<open>
  The \<^verbatim>\<open>INSERT INTO extraction_logs\<close>: \<^verbatim>\<open>paper_id\<close> references \<^verbatim>\<open>papers(id)\<close>, so the
  insert fails for a paper that has no row.
\<close>

definition insert_extraction_log :: "extraction_log \<Rightarrow> db \<Rightarrow> (error + unit) \<times> db" where
  "insert_extraction_log l d =
     (if log_paper_id l \<notin> paper_id ` set (papers d)
      then (Inl (PostgresError ''violates foreign key constraint''), d)
      else (Inr (), d\<lparr>extraction_logs := extraction_logs d @ [l]\<rparr>))"

text \<open>\<^verbatim>\<open>AgentOrchestrator.logExtraction\<close>: the \<^verbatim>\<open>catch\<close> only warns.\<close>

definition logExtraction ::
  "uuid \<Rightarrow> string \<Rightarrow> string \<Rightarrow> (string \<times> nat) list \<Rightarrow> (string \<times> nat) list \<Rightarrow> bool
     \<Rightarrow> string option \<Rightarrow> db \<Rightarrow> db" where
  "logExtraction paperId agentName extractionType inputData outputData succ errorMessage d =
     (case insert_extraction_log
             \<lparr>log_paper_id = paperId, agent_name = agentName,
              extraction_type = extractionType, input_data = inputData,
              output_data = outputData, success = succ,
              error_message = or_null errorMessage\<rparr> d of
        (Inl _, d') \<Rightarrow> d'
      | (Inr _, d') \<Rightarrow> d')"

text \<open>
  \<^verbatim>\<open>AgentOrchestrator.processPaper\<close>. The logged input and output objects are kept to
  their counters. Whatever the \<^verbatim>\<open>try\<close> block throws is logged once as
  \<^verbatim>\<open>'full_pipeline'\<close> and thrown again.
\<close>

definition processPaper ::
  "world \<Rightarrow> paper \<Rightarrow> string \<Rightarrow> db \<Rightarrow> (error + paper_analysis) \<times> db" where
  "processPaper w p fullText d =
     (case EntityExtractorAgent_process w p fullText of
        Inl e \<Rightarrow>
          (Inl e,
           logExtraction (paper_id p) ''Orchestrator'' ''full_pipeline''
             [(''text_length'', length fullText)] [] False (Some (message e)) d)
      | Inr entities \<Rightarrow>
          (let d1 = logExtraction (paper_id p) ''EntityExtractor'' ''entity''
                      [(''text_length'', length fullText)]
                      [(''entity_count'', length entities)] True None d;
               existingPapers = getExistingPapers d1
           in case RelationshipExtractorAgent_process w p entities fullText
                     (Some existingPapers) of
                Inl e \<Rightarrow>
                  (Inl e,
                   logExtraction (paper_id p) ''Orchestrator'' ''full_pipeline''
                     [(''text_length'', length fullText)] [] False (Some (message e)) d1)
              | Inr relationships \<Rightarrow>
                  (let d2 = logExtraction (paper_id p) ''RelationshipExtractor''
                              ''relationship''
                              [(''entity_count'', length entities),
                               (''existing_papers'', length existingPapers)]
                              [(''relationship_count'', length relationships)] True None d1;
                       validatedEntities = validateEntities entities;
                       validatedRelationships =
                         validateRelationships relationships validatedEntities
                   in (Inr \<lparr>pa_paper_id = paper_id p, pa_entities = validatedEntities,
                             pa_relationships = validatedRelationships\<rparr>,
                       d2))))"


section \<open>Paper repository and ingestion pipeline\<close>

record paper_data =
  pd_title :: string
  pd_abstract :: "string option"
  pd_full_text :: string
  pd_authors :: "string list"
  pd_arxiv_id :: "string option"
  pd_publication_date :: "int option"
  pd_venue :: "string option"

definition paper_node_metadata :: "paper_data \<Rightarrow> jsonb" where
  "paper_node_metadata pd =
     ((case pd_abstract pd of
         None \<Rightarrow> Map.empty
       | Some x \<Rightarrow> [''abstract'' \<mapsto> JStr x]) ++
      [''authors'' \<mapsto> JArr (map JStr (pd_authors pd))]) ++
     (case pd_venue pd of None \<Rightarrow> Map.empty | Some x \<Rightarrow> [''venue'' \<mapsto> JStr x])"

text \<open>
  \<^verbatim>\<open>PaperRepository.create\<close>: the paper is upserted as a node, then
  \<^verbatim>\<open>INSERT INTO papers (id, ...) VALUES (nodeId, ..., 'pending') ON CONFLICT (arxiv_id)
  DO UPDATE SET title = EXCLUDED.title, abstract = EXCLUDED.abstract RETURNING *\<close>.
  Without a conflict on \<^verbatim>\<open>arxiv_id\<close>, a row that already has this primary key makes the
  insert fail.
\<close>

definition PaperRepository_create :: "paper_data \<Rightarrow> db \<Rightarrow> (error + paper) \<times> db" where
  "PaperRepository_create pd d =
     (case upsert ''paper'' (pd_title pd) (paper_node_metadata pd) ''system'' 1 d of
        (Inl e, d1) \<Rightarrow> (Inl e, d1)
      | (Inr nodeId, d1) \<Rightarrow>
          (case (case or_null (pd_arxiv_id pd) of
                   None \<Rightarrow> None
                 | Some a \<Rightarrow> find (\<lambda>p. arxiv_id p = Some a) (papers d1)) of
             Some existing \<Rightarrow>
               (let updated = existing\<lparr>title := pd_title pd,
                                       abstract := or_null (pd_abstract pd)\<rparr>
                in (Inr updated,
                    d1\<lparr>papers :=
                         map (\<lambda>p. if arxiv_id p = arxiv_id existing
                                  then p\<lparr>title := pd_title pd,
                                         abstract := or_null (pd_abstract pd)\<rparr>
                                  else p)
                           (papers d1)\<rparr>))
           | None \<Rightarrow>
               if nodeId \<in> paper_id ` set (papers d1)
               then (Inl (PostgresError ''duplicate key value violates unique constraint''),
                     d1)
               else
                 (let created =
                        \<lparr>paper_id = nodeId, title = pd_title pd,
                         abstract = or_null (pd_abstract pd),
                         full_text = or_null (Some (pd_full_text pd)),
                         authors = pd_authors pd, arxiv_id = or_null (pd_arxiv_id pd),
                         publication_date = pd_publication_date pd,
                         venue = or_null (pd_venue pd),
                         processing_status = ''pending''\<rparr>
                  in (Inr created, d1\<lparr>papers := papers d1 @ [created]\<rparr>))))"

text \<open>\<^verbatim>\<open>PaperRepository.updateStatus\<close>: \<^verbatim>\<open>UPDATE papers SET processing_status = ... WHERE id = ...\<close>.\<close>

definition updateStatus :: "uuid \<Rightarrow> string \<Rightarrow> db \<Rightarrow> db" where
  "updateStatus paperId status d =
     d\<lparr>papers :=
         map (\<lambda>p. if paper_id p = paperId then p\<lparr>processing_status := status\<rparr> else p)
           (papers d)\<rparr>"

definition status_of :: "uuid \<Rightarrow> db \<Rightarrow> string list" where
  "status_of paperId d =
     map processing_status (filter (\<lambda>p. paper_id p = paperId) (papers d))"

text \<open>\<^verbatim>\<open>IngestionPipeline.ingestPaper\<close>.\<close>

definition ingestPaper ::
  "world \<Rightarrow> paper_data \<Rightarrow> db \<Rightarrow> (error + paper \<times> paper_analysis) \<times> db" where
  "ingestPaper w paperData d =
     (case PaperRepository_create paperData d of
        (Inl e, d0) \<Rightarrow> (Inl e, d0)
      | (Inr p, d0) \<Rightarrow>
          (let d1 = updateStatus (paper_id p) ''processing'' d0 in
           case processPaper w p (pd_full_text paperData) d1 of
             (Inl e, d2) \<Rightarrow> (Inl e, updateStatus (paper_id p) ''failed'' d2)
           | (Inr analysis, d2) \<Rightarrow>
               (case upsertEntities (pa_entities analysis) ''EntityExtractor'' d2 of
                  (Inl e, d3) \<Rightarrow> (Inl e, updateStatus (paper_id p) ''failed'' d3)
                | (Inr entityMap, d3) \<Rightarrow>
                    (case createRelationships w (pa_relationships analysis) (paper_id p)
                            entityMap ''RelationshipExtractor'' d3 of
                       (edgeCount, d4) \<Rightarrow>
                         (Inr (p, analysis),
                          updateStatus (paper_id p) ''completed'' d4)))))"

text \<open>
  \<^verbatim>\<open>Array.prototype.slice(start, end)\<close>: each argument is truncated to an integer
  (\<^verbatim>\<open>NaN\<close> to 0), a negative one counts from the end, and both are clamped to the array.
\<close>

definition slice_index :: "nat \<Rightarrow> number \<Rightarrow> nat" where
  "slice_index len v =
     (case v of
        NaN \<Rightarrow> 0
      | NegInf \<Rightarrow> 0
      | PosInf \<Rightarrow> len
      | Num x \<Rightarrow>
          (let z = (if 0 \<le> x then \<lfloor>x\<rfloor> else \<lceil>x\<rceil>) in
           if z < 0 then nat (max (int len + z) 0) else nat (min z (int len))))"

definition js_slice :: "'a list \<Rightarrow> number \<Rightarrow> number \<Rightarrow> 'a list" where
  "js_slice xs start end' =
     (let k = slice_index (length xs) start;
          final = slice_index (length xs) end'
      in take (final - k) (drop k xs))"


section \<open>Asynchronous calls and their interleaving\<close>

text \<open>
  A call of an \<^verbatim>\<open>async\<close> function, seen from the store: it has returned its value, or it
  awaits one statement of the database (or one answer of the language model, which leaves
  the store as it is) and goes on from the store that the statement met. Between two
  awaits nothing else runs, and a statement is executed as a whole.
\<close>

datatype 'a async = Done 'a | Await "db \<Rightarrow> db" "db \<Rightarrow> 'a async"

text \<open>A call that runs alone, from its first statement to its value.\<close>

primrec run :: "'a async \<Rightarrow> db \<Rightarrow> 'a \<times> db" where
  "run (Done a) d = (a, d)"
| "run (Await e k) d = run (k d) (e d)"

text \<open>
  \<^verbatim>\<open>const x = await t; ...\<close> is \<open>bind t (\<lambda>x. ...)\<close>, and \<open>await stmt\<close> awaits the one
  statement \<open>stmt\<close>.
\<close>

primrec bind :: "'a async \<Rightarrow> ('a \<Rightarrow> 'b async) \<Rightarrow> 'b async" where
  "bind (Done a) f = f a"
| "bind (Await e k) f = Await e (\<lambda>d. bind (k d) f)"

definition await :: "(db \<Rightarrow> 'r \<times> db) \<Rightarrow> 'r async" where
  "await stmt = Await (\<lambda>d. snd (stmt d)) (\<lambda>d. Done (fst (stmt d)))"

text \<open>
  \<^verbatim>\<open>Promise.allSettled\<close> of calls that have been started together. Their statements reach
  the database in an order that the program does not fix, except that each call issues
  its own in sequence. A schedule names, step by step, the call whose awaited statement
  is executed next (a name that is out of range, or of a call that has returned, does
  nothing); when the schedule is used up the calls that are left run to their end one
  after the other, so that every schedule is an order in which all calls settle, and
  every such order is a schedule. The outcomes are returned in the order of the calls.
\<close>

fun step :: "'a async \<Rightarrow> db \<Rightarrow> 'a async \<times> db" where
  "step (Done a) d = (Done a, d)"
| "step (Await e k) d = (k d, e d)"

fun interleave :: "nat list \<Rightarrow> 'a async list \<Rightarrow> db \<Rightarrow> 'a async list \<times> db" where
  "interleave [] ts d = (ts, d)"
| "interleave (i # sched) ts d =
     (if i < length ts
      then (case step (ts ! i) d of (t', d') \<Rightarrow> interleave sched (ts[i := t']) d')
      else interleave sched ts d)"

fun settle :: "'a async list \<Rightarrow> db \<Rightarrow> 'a list \<times> db" where
  "settle [] d = ([], d)"
| "settle (t # ts) d =
     (case run t d of (a, d1) \<Rightarrow> (case settle ts d1 of (as, d2) \<Rightarrow> (a # as, d2)))"

definition allSettled :: "nat list \<Rightarrow> 'a async list \<Rightarrow> db \<Rightarrow> 'a list \<times> db" where
  "allSettled sched ts d = (case interleave sched ts d of (ts', d') \<Rightarrow> settle ts' d')"

text \<open>
  The calls of the pipeline with their awaits. The second statement of
  \<^verbatim>\<open>PaperRepository.create\<close>, the \<^verbatim>\<open>INSERT INTO papers\<close>, on its own:
\<close>

definition insert_paper :: "paper_data \<Rightarrow> uuid \<Rightarrow> db \<Rightarrow> (error + paper) \<times> db" where
  "insert_paper pd nodeId d1 =
     (case (case or_null (pd_arxiv_id pd) of
              None \<Rightarrow> None
            | Some a \<Rightarrow> find (\<lambda>p. arxiv_id p = Some a) (papers d1)) of
        Some existing \<Rightarrow>
          (let updated = existing\<lparr>title := pd_title pd,
                                  abstract := or_null (pd_abstract pd)\<rparr>
           in (Inr updated,
               d1\<lparr>papers :=
                    map (\<lambda>p. if arxiv_id p = arxiv_id existing
                             then p\<lparr>title := pd_title pd,
                                    abstract := or_null (pd_abstract pd)\<rparr>
                             else p)
                      (papers d1)\<rparr>))
      | None \<Rightarrow>
          if nodeId \<in> paper_id ` set (papers d1)
          then (Inl (PostgresError ''duplicate key value violates unique constraint''),
                d1)
          else
            (let created =
                   \<lparr>paper_id = nodeId, title = pd_title pd,
                    abstract = or_null (pd_abstract pd),
                    full_text = or_null (Some (pd_full_text pd)),
                    authors = pd_authors pd, arxiv_id = or_null (pd_arxiv_id pd),
                    publication_date = pd_publication_date pd,
                    venue = or_null (pd_venue pd),
                    processing_status = ''pending''\<rparr>
             in (Inr created, d1\<lparr>papers := papers d1 @ [created]\<rparr>)))"

text \<open>
  \<^verbatim>\<open>PaperRepository.create\<close>, \<^verbatim>\<open>updateStatus\<close>, \<^verbatim>\<open>logExtraction\<close>,
  \<^verbatim>\<open>processPaper\<close>, \<^verbatim>\<open>upsertEntities\<close>, \<^verbatim>\<open>resolveEntityId\<close>,
  \<^verbatim>\<open>createRelationships\<close> and \<^verbatim>\<open>ingestPaper\<close> as such calls: one await for each
  \<^verbatim>\<open>await sql\<close> and for each \<^verbatim>\<open>callLLM\<close>.
\<close>

definition PaperRepository_create_async :: "paper_data \<Rightarrow> (error + paper) async" where
  "PaperRepository_create_async pd =
     bind (await (upsert ''paper'' (pd_title pd) (paper_node_metadata pd) ''system'' 1))
       (\<lambda>r. case r of
          Inl e \<Rightarrow> Done (Inl e)
        | Inr nodeId \<Rightarrow> await (insert_paper pd nodeId))"

definition updateStatus_async :: "uuid \<Rightarrow> string \<Rightarrow> unit async" where
  "updateStatus_async paperId status = await (\<lambda>d. ((), updateStatus paperId status d))"

definition logExtraction_async ::
  "uuid \<Rightarrow> string \<Rightarrow> string \<Rightarrow> (string \<times> nat) list \<Rightarrow> (string \<times> nat) list \<Rightarrow> bool
     \<Rightarrow> string option \<Rightarrow> unit async" where
  "logExtraction_async paperId agentName extractionType inputData outputData succ errorMessage =
     await (\<lambda>d. ((), logExtraction paperId agentName extractionType inputData outputData
                        succ errorMessage d))"

definition processPaper_async :: "world \<Rightarrow> paper \<Rightarrow> string \<Rightarrow> (error + paper_analysis) async" where
  "processPaper_async w p fullText =
     bind (await (\<lambda>d. (EntityExtractorAgent_process w p fullText, d)))
       (\<lambda>r. case r of
          Inl e \<Rightarrow>
            bind (logExtraction_async (paper_id p) ''Orchestrator'' ''full_pipeline''
                    [(''text_length'', length fullText)] [] False (Some (message e)))
              (\<lambda>_. Done (Inl e))
        | Inr entities \<Rightarrow>
            bind (logExtraction_async (paper_id p) ''EntityExtractor'' ''entity''
                    [(''text_length'', length fullText)]
                    [(''entity_count'', length entities)] True None)
              (\<lambda>_.
            bind (await (\<lambda>d. (getExistingPapers d, d)))
              (\<lambda>existingPapers.
            bind (await (\<lambda>d. (RelationshipExtractorAgent_process w p entities fullText
                                  (Some existingPapers), d)))
              (\<lambda>r. case r of
                 Inl e \<Rightarrow>
                   bind (logExtraction_async (paper_id p) ''Orchestrator'' ''full_pipeline''
                           [(''text_length'', length fullText)] [] False (Some (message e)))
                     (\<lambda>_. Done (Inl e))
               | Inr relationships \<Rightarrow>
                   bind (logExtraction_async (paper_id p) ''RelationshipExtractor''
                           ''relationship''
                           [(''entity_count'', length entities),
                            (''existing_papers'', length existingPapers)]
                           [(''relationship_count'', length relationships)] True None)
                     (\<lambda>_.
                        (let validatedEntities = validateEntities entities;
                             validatedRelationships =
                               validateRelationships relationships validatedEntities
                         in Done (Inr \<lparr>pa_paper_id = paper_id p,
                                        pa_entities = validatedEntities,
                                        pa_relationships = validatedRelationships\<rparr>)))))))"

fun upsertEntities_loop_async ::
  "extracted_entity list \<Rightarrow> string \<Rightarrow> (string \<rightharpoonup> uuid) \<Rightarrow> (error + (string \<rightharpoonup> uuid)) async" where
  "upsertEntities_loop_async [] extractedBy nameToIdMap = Done (Inr nameToIdMap)"
| "upsertEntities_loop_async (entity # rest) extractedBy nameToIdMap =
     bind (await (upsert (ent_type entity) (ent_name entity) (entity_node_metadata entity)
                    extractedBy (ent_confidence entity)))
       (\<lambda>r. case r of
          Inl e \<Rightarrow> Done (Inl e)
        | Inr nodeId \<Rightarrow>
            upsertEntities_loop_async rest extractedBy
              (nameToIdMap(normalizeName (ent_name entity) \<mapsto> nodeId)))"

definition upsertEntities_async ::
  "extracted_entity list \<Rightarrow> string \<Rightarrow> (error + (string \<rightharpoonup> uuid)) async" where
  "upsertEntities_async entities extractedBy =
     upsertEntities_loop_async entities extractedBy Map.empty"

definition resolveEntityId_async ::
  "world \<Rightarrow> string \<Rightarrow> uuid \<Rightarrow> (string \<rightharpoonup> uuid) \<Rightarrow> uuid option async" where
  "resolveEntityId_async w entityName paperId entityNameToIdMap =
     (let normalized = normalizeName entityName in
      case entityNameToIdMap normalized of
        Some i \<Rightarrow> Done (Some i)
      | None \<Rightarrow>
          bind (await (\<lambda>d. (NodeRepository_findById paperId d, d)))
            (\<lambda>paperNode.
               if (case paperNode of
                     None \<Rightarrow> False
                   | Some n \<Rightarrow> normalizeName (node_name n) = normalized)
               then Done (Some paperId)
               else
                 bind (await (\<lambda>d. (search w (nodes d) entityName 5, d)))
                   (\<lambda>existingNodes.
                      Done (case existingNodes of
                              [] \<Rightarrow> None
                            | n # _ \<Rightarrow> Some (node_id n)))))"

fun createRelationships_loop_async ::
  "world \<Rightarrow> extracted_relationship list \<Rightarrow> uuid \<Rightarrow> (string \<rightharpoonup> uuid) \<Rightarrow> string \<Rightarrow> nat
     \<Rightarrow> nat async" where
  "createRelationships_loop_async w [] paperId m extractedBy createdCount = Done createdCount"
| "createRelationships_loop_async w (rel # rest) paperId m extractedBy createdCount =
     bind (resolveEntityId_async w (rel_source rel) paperId m)
       (\<lambda>sourceId.
     bind (resolveEntityId_async w (rel_target rel) paperId m)
       (\<lambda>targetId.
          case (sourceId, targetId) of
            (Some s, Some t) \<Rightarrow>
              bind (await (EdgeRepository_create (rel_type rel) s t (rel_description rel)
                             (rel_evidence rel) (rel_confidence rel) extractedBy
                             (case rel_metadata rel of None \<Rightarrow> Map.empty | Some md \<Rightarrow> md)))
                (\<lambda>r. case r of
                   Inr _ \<Rightarrow>
                     createRelationships_loop_async w rest paperId m extractedBy
                       (createdCount + 1)
                 | Inl _ \<Rightarrow>
                     createRelationships_loop_async w rest paperId m extractedBy createdCount)
          | _ \<Rightarrow> createRelationships_loop_async w rest paperId m extractedBy createdCount))"

definition createRelationships_async ::
  "world \<Rightarrow> extracted_relationship list \<Rightarrow> uuid \<Rightarrow> (string \<rightharpoonup> uuid) \<Rightarrow> string \<Rightarrow> nat async" where
  "createRelationships_async w relationships paperId m extractedBy =
     createRelationships_loop_async w relationships paperId m extractedBy 0"

definition ingestPaper_async :: "world \<Rightarrow> paper_data \<Rightarrow> (error + paper \<times> paper_analysis) async" where
  "ingestPaper_async w paperData =
     bind (PaperRepository_create_async paperData)
       (\<lambda>r. case r of
          Inl e \<Rightarrow> Done (Inl e)
        | Inr p \<Rightarrow>
            bind (updateStatus_async (paper_id p) ''processing'')
              (\<lambda>_.
            bind (processPaper_async w p (pd_full_text paperData))
              (\<lambda>r. case r of
                 Inl e \<Rightarrow>
                   bind (updateStatus_async (paper_id p) ''failed'') (\<lambda>_. Done (Inl e))
               | Inr analysis \<Rightarrow>
                   bind (upsertEntities_async (pa_entities analysis) ''EntityExtractor'')
                     (\<lambda>r. case r of
                        Inl e \<Rightarrow>
                          bind (updateStatus_async (paper_id p) ''failed'')
                            (\<lambda>_. Done (Inl e))
                      | Inr entityMap \<Rightarrow>
                          bind (createRelationships_async w (pa_relationships analysis)
                                  (paper_id p) entityMap ''RelationshipExtractor'')
                            (\<lambda>edgeCount.
                          bind (updateStatus_async (paper_id p) ''completed'')
                            (\<lambda>_. Done (Inr (p, analysis))))))))"


section \<open>Batch ingestion\<close>

text \<open>
  What \<^verbatim>\<open>ingestPapers\<close> reports on the console: the two counters, and, for the
  verification, the batches it formed, the outcomes that \<^verbatim>\<open>Promise.allSettled\<close> returned
  and the number of times it waited.
\<close>

definition fulfilled :: "error + 'a \<Rightarrow> bool" where
  "fulfilled r = (case r of Inl _ \<Rightarrow> False | Inr _ \<Rightarrow> True)"

record summary =
  successCount :: nat
  failCount :: nat
  batches :: "paper_data list list"
  outcomes :: "(error + paper \<times> paper_analysis) list"
  delays :: nat

text \<open>
  \<^verbatim>\<open>IngestionPipeline.ingestPapers\<close>:
  \<^verbatim>\<open>for (let i = 0; i < papers.length; i += batchSize)\<close> with
  \<^verbatim>\<open>Promise.allSettled(batch.map((paperData) => this.ingestPaper(paperData)))\<close> in its
  body. The batch size is any number. \<open>schedule c\<close> is the order in which the statements
  of batch number \<open>c\<close> meet the database. The loop need not end, so the result is
  optional: \<open>None\<close> is a loop that runs forever.
\<close>

partial_function (option) ingestPapers_loop ::
  "(nat \<Rightarrow> nat list) \<Rightarrow> world \<Rightarrow> paper_data list \<Rightarrow> number \<Rightarrow> number \<Rightarrow> summary \<Rightarrow> db
     \<Rightarrow> (summary \<times> db) option" where
  "ingestPapers_loop schedule w ps batchSize i s d =
     (if js_lt i (Num (real (length ps)))
      then
        (case allSettled (schedule (length (batches s)))
                (map (ingestPaper_async w) (js_slice ps i (js_add i batchSize))) d of
           (results, d') \<Rightarrow>
             ingestPapers_loop schedule w ps batchSize (js_add i batchSize)
               \<lparr>successCount = successCount s + length (filter fulfilled results),
                failCount = failCount s + length (filter (\<lambda>r. \<not> fulfilled r) results),
                batches = batches s @ [js_slice ps i (js_add i batchSize)],
                outcomes = outcomes s @ results,
                delays = (if js_lt (js_add i batchSize) (Num (real (length ps)))
                          then delays s + 1 else delays s)\<rparr>
               d')
      else Some (s, d))"

definition ingestPapers ::
  "(nat \<Rightarrow> nat list) \<Rightarrow> world \<Rightarrow> paper_data list \<Rightarrow> number \<Rightarrow> db \<Rightarrow> (summary \<times> db) option" where
  "ingestPapers schedule w ps batchSize d =
     ingestPapers_loop schedule w ps batchSize (Num 0)
       \<lparr>successCount = 0, failCount = 0, batches = [], outcomes = [], delays = 0\<rparr> d"


section \<open>Auxiliary definitions\<close>

text \<open>
  The row that the conflict branch of \<^verbatim>\<open>upsert\<close>, and of
  \<^verbatim>\<open>create\<close>, writes.
\<close>

definition merged_node :: "jsonb \<Rightarrow> real \<Rightarrow> node \<Rightarrow> node" where
  "merged_node md c n =
     n\<lparr>node_metadata := node_metadata n ++ md,
       extraction_confidence := max (extraction_confidence n) c\<rparr>"

definition merged_edge :: "string option \<Rightarrow> string option \<Rightarrow> real \<Rightarrow> jsonb \<Rightarrow> edge \<Rightarrow> edge" where
  "merged_edge description evidence c md e =
     e\<lparr>edge_description := coalesce (or_null description) (edge_description e),
       edge_evidence := coalesce (or_null evidence) (edge_evidence e),
       edge_confidence := max (edge_confidence e) c,
       edge_metadata := edge_metadata e ++ md\<rparr>"

text \<open>
  The key by which \<^verbatim>\<open>validateEntities\<close> groups, and what it
  retains for a key: a candidate that beats every earlier one of its group and is not
  beaten by a later one.
\<close>

definition entity_key :: "extracted_entity \<Rightarrow> string" where
  "entity_key e = normalizeName (ent_name e)"

definition best_in :: "extracted_entity list \<Rightarrow> extracted_entity \<Rightarrow> bool" where
  "best_in xs e =
     (\<exists>ys zs. xs = ys @ e # zs
        \<and> (\<forall>y \<in> set ys. entity_key y = entity_key e \<longrightarrow> ent_confidence y < ent_confidence e)
        \<and> (\<forall>z \<in> set zs. entity_key z = entity_key e \<longrightarrow> ent_confidence z \<le> ent_confidence e))"

text \<open>
  The relationships that \<^verbatim>\<open>createRelationships\<close> does not skip,
  and its call of \<^verbatim>\<open>create\<close>.
\<close>

definition both_resolve ::
  "world \<Rightarrow> uuid \<Rightarrow> (string \<rightharpoonup> uuid) \<Rightarrow> db \<Rightarrow> extracted_relationship \<Rightarrow> bool" where
  "both_resolve w paperId m d rel =
     (resolveEntityId w (rel_source rel) paperId m d \<noteq> None \<and>
      resolveEntityId w (rel_target rel) paperId m d \<noteq> None)"

definition create_for ::
  "extracted_relationship \<Rightarrow> uuid \<Rightarrow> uuid \<Rightarrow> string \<Rightarrow> db \<Rightarrow> (error + uuid) \<times> db" where
  "create_for rel s t extractedBy d =
     EdgeRepository_create (rel_type rel) s t (rel_description rel) (rel_evidence rel)
       (rel_confidence rel) extractedBy
       (case rel_metadata rel of None \<Rightarrow> Map.empty | Some md \<Rightarrow> md) d"


text \<open>
  Consecutive pieces of \<^verbatim>\<open>n\<close> elements, the last one possibly
  shorter.
\<close>

function chunks :: "nat \<Rightarrow> 'a list \<Rightarrow> 'a list list" where
  "chunks n xs = (if n = 0 \<or> xs = [] then [] else take n xs # chunks n (drop n xs))"
  by pat_completeness auto
termination
  by (relation "measure (\<lambda>(n, xs). length xs)") auto

text \<open>
  The batches settled one after the other, batch number \<open>c\<close> first: all outcomes, and
  the store that is left.
\<close>

fun run_chunks ::
  "(nat \<Rightarrow> nat list) \<Rightarrow> world \<Rightarrow> nat \<Rightarrow> paper_data list list \<Rightarrow> db
     \<Rightarrow> (error + paper \<times> paper_analysis) list \<times> db" where
  "run_chunks schedule w c [] d = ([], d)"
| "run_chunks schedule w c (b # bs) d =
     (case allSettled (schedule c) (map (ingestPaper_async w) b) d of
        (rs, d1) \<Rightarrow>
          (case run_chunks schedule w (Suc c) bs d1 of (rs', d2) \<Rightarrow> (rs @ rs', d2)))"


section \<open>Concrete inputs\<close>

text \<open>
  Metadata objects, a store with two nodes, and that store with one edge between them.
\<close>

definition no_metadata :: jsonb where
  "no_metadata = Map.empty"

definition ex_metadata_a :: jsonb where
  "ex_metadata_a = [''a'' \<mapsto> JNum (Num 1)]"

definition ex_metadata_b :: jsonb where
  "ex_metadata_b = [''b'' \<mapsto> JNum (Num 2)]"

definition ex_two_nodes :: db where
  "ex_two_nodes =
     snd (upsert ''method'' ''Y'' no_metadata ''system'' 1
            (snd (upsert ''method'' ''X'' no_metadata ''system'' 1 empty_db)))"

definition ex_one_edge :: db where
  "ex_one_edge =
     snd (EdgeRepository_create ''extends'' 0 1 None (Some ''e1'') (1/2) ''system''
            no_metadata ex_two_nodes)"

text \<open>
  Candidates as a language model may return them, and a world whose model answers
  according to the text of the paper: it fails on two particular texts, returns nothing
  on a third, and returns these candidates otherwise. Its search finds nothing.
\<close>

definition raw_ent :: "string \<Rightarrow> string \<Rightarrow> real option \<Rightarrow> raw_entity" where
  "raw_ent n ty c =
     \<lparr>re_name = n, re_type = ty, re_description = None, re_confidence = c,
      re_context = None, re_metadata = None\<rparr>"

definition raw_rel :: "string \<Rightarrow> string \<Rightarrow> string \<Rightarrow> real option \<Rightarrow> raw_relationship" where
  "raw_rel s t ty c =
     \<lparr>rr_source = s, rr_target = t, rr_type = ty, rr_description = None,
      rr_evidence = None, rr_confidence = c, rr_metadata = None\<rparr>"

definition ex_raw_entities :: "raw_entity list" where
  "ex_raw_entities =
     [raw_ent ''NeRF'' ''method'' None, raw_ent ''nerf'' ''method'' (Some (9/10)),
      raw_ent ''Splat'' ''method'' (Some 0), raw_ent ''PSNR'' ''metric'' (Some (3/2)),
      raw_ent ''Blur'' ''challenge'' (Some (-2)), raw_ent ''NERF!'' ''method'' (Some (9/10))]"

definition ex_raw_relationships :: "raw_relationship list" where
  "ex_raw_relationships =
     [raw_rel ''NeRF'' ''PSNR'' ''measures_with'' None,
      raw_rel ''Splat'' ''Ghost'' ''extends'' (Some (8/10)),
      raw_rel ''splat'' ''nerf'' ''improves_on'' (Some 0),
      raw_rel ''PSNR'' ''Blur'' ''related_to'' (Some 7)]"

definition ex_entity_llm :: "paper \<Rightarrow> string \<Rightarrow> error + raw_entity list" where
  "ex_entity_llm p text =
     (if text = ''bad entities'' then Inl (ParseError ''JSON parsing failed'')
      else if text = ''nothing'' then Inr []
      else Inr ex_raw_entities)"

definition ex_relationship_llm ::
  "paper \<Rightarrow> extracted_entity list \<Rightarrow> string \<Rightarrow> paper_ref list option
     \<Rightarrow> error + raw_relationship list" where
  "ex_relationship_llm p entities text existingPapers =
     (if text = ''bad relationships'' then Inl (ExternalServiceError ''rate limit'')
      else if text = ''nothing'' then Inr []
      else Inr ex_raw_relationships)"

definition ex_search :: "node list \<Rightarrow> string \<Rightarrow> nat \<Rightarrow> node list" where
  "ex_search ns query limit = []"

definition ex_world :: world where
  "ex_world =
     \<lparr>entity_llm = ex_entity_llm, relationship_llm = ex_relationship_llm,
      search = ex_search\<rparr>"

definition ex_entities :: "extracted_entity list" where
  "ex_entities = map normalize_entity ex_raw_entities"

text \<open>
  A candidate of a reply in which the language model gave the confidence in words:
  \<^verbatim>\<open>{"name": "NeRF", "type": "method", "confidence": "high"}\<close>.
\<close>

definition ex_candidate :: jsonb where
  "ex_candidate =
     [''name'' \<mapsto> JStr ''NeRF'', ''type'' \<mapsto> JStr ''method'',
      ''confidence'' \<mapsto> JStr ''high'']"

text \<open>
  A paper and a store that holds it; a map of resolved names and a relationship between
  two names; five papers of which the third fails in its relationship stage.
\<close>

definition ex_paper :: paper where
  "ex_paper =
     \<lparr>paper_id = 0, title = ''P'', abstract = None, full_text = None, authors = [],
      arxiv_id = None, publication_date = None, venue = None,
      processing_status = ''processing''\<rparr>"


definition ex_map :: "string \<rightharpoonup> uuid" where
  "ex_map = [''x'' \<mapsto> 0, ''y'' \<mapsto> 1]"

definition ex_rel :: "string \<Rightarrow> string \<Rightarrow> extracted_relationship" where
  "ex_rel s t =
     \<lparr>rel_source = s, rel_target = t, rel_type = ''extends'', rel_description = None,
      rel_evidence = None, rel_confidence = 1/2, rel_metadata = None\<rparr>"

definition ex_paper_data :: "string \<Rightarrow> string \<Rightarrow> paper_data" where
  "ex_paper_data t text =
     \<lparr>pd_title = t, pd_abstract = None, pd_full_text = text, pd_authors = [],
      pd_arxiv_id = None, pd_publication_date = None, pd_venue = None\<rparr>"

definition ex_five_papers :: "paper_data list" where
  "ex_five_papers =
     [ex_paper_data ''P1'' ''nothing'', ex_paper_data ''P2'' ''nothing'',
      ex_paper_data ''P3'' ''bad relationships'', ex_paper_data ''P4'' ''nothing'',
      ex_paper_data ''P5'' ''nothing'']"

text \<open>
  A schedule for five calls that takes them in turn, one statement each, nine times.
\<close>

definition round_robin :: "nat \<Rightarrow> nat list" where
  "round_robin c = concat (replicate 9 [0, 1, 2, 3, 4])"


section \<open>The canonicalizer is not idempotent\<close>

lemmas normalize_defs =
  normalizeName_def strip_special_def trim_def toLowerCase_def toLowerCase_char_def
  is_space_def is_word_def

text \<open>
  Claim C3 says that \<open>normalizeName\<close> is idempotent. The code collapses white space
  before it deletes the special characters, so deleting a character that stood between
  two spaces leaves two spaces side by side, and a second pass collapses them: on
  \<^verbatim>\<open>"a ! b"\<close> the first pass gives \<^verbatim>\<open>"a  b"\<close> and the second \<^verbatim>\<open>"a b"\<close>.
\<close>

theorem normalizeName_not_idempotent:
  "normalizeName ''a ! b'' = ''a  b'' \<and> normalizeName (normalizeName ''a ! b'') = ''a b''"
  by (simp add: normalize_defs)


section \<open>Node store: convergence of upsert\<close>

lemma filter_unique_key:
  "distinct (map f xs) \<Longrightarrow> find (\<lambda>x. f x = k) xs = Some x \<Longrightarrow> filter (\<lambda>x. f x = k) xs = [x]"
proof (induction xs)
  case Nil
  then show ?case by simp
next
  case (Cons y ys)
  show ?case
  proof (cases "f y = k")
    case True
    with Cons.prems have "x = y" by simp
    moreover from Cons.prems have "f y \<notin> f ` set ys" by simp
    with True have "\<forall>z \<in> set ys. f z \<noteq> k" by blast
    then have "filter (\<lambda>x. f x = k) ys = []" by (simp add: filter_empty_conv)
    ultimately show ?thesis using True by simp
  next
    case False
    with Cons show ?thesis by simp
  qed
qed

lemma find_None_filter: "find P xs = None \<Longrightarrow> filter P xs = []"
  by (simp add: find_None_iff filter_empty_conv)

lemma find_snoc: "find P xs = None \<Longrightarrow> P y \<Longrightarrow> find P (xs @ [y]) = Some y"
  by (induction xs) (auto split: if_splits)

lemma map_key_update:
  "(\<And>x. h (g x) = h x) \<Longrightarrow> map h (map (\<lambda>x. if P x then g x else x) xs) = map h xs"
  by (induction xs) auto

lemma find_map_update:
  "(\<And>x. P (g x) = P x) \<Longrightarrow>
   find P (map (\<lambda>x. if P x then g x else x) xs) = map_option g (find P xs)"
  by (induction xs) auto

lemma filter_map_update:
  "(\<And>x. P (g x) = P x) \<Longrightarrow>
   filter P (map (\<lambda>x. if P x then g x else x) xs) = map g (filter P xs)"
  by (induction xs) auto

lemma node_key_is_eq: "node_key_is ty cn = (\<lambda>n. (node_type n, canonical_name n) = (ty, cn))"
  by (auto simp: node_key_is_def)

lemma nodes_with_key_unique:
  "unique_node_keys d \<Longrightarrow> find (node_key_is ty cn) (nodes d) = Some n \<Longrightarrow>
   nodes_with_key ty cn d = [n]"
  unfolding unique_node_keys_def nodes_with_key_def node_key_is_eq
  by (rule filter_unique_key)

lemma upsert_existing:
  assumes "ty \<in> set node_type_enum"
      and "find (node_key_is ty (normalizeName name)) (nodes d) = Some old"
  shows "upsert ty name md by c d =
           (Inr (node_id old),
            d\<lparr>nodes := map (\<lambda>n. if node_key_is ty (normalizeName name) n
                                then merged_node md c n else n) (nodes d)\<rparr>)"
  using assms by (simp add: upsert_def merged_node_def)

lemma upsert_fresh:
  assumes "ty \<in> set node_type_enum"
      and "find (node_key_is ty (normalizeName name)) (nodes d) = None"
  shows "upsert ty name md by c d =
           (Inr (next_uuid d),
            d\<lparr>nodes := nodes d @
                 [\<lparr>node_id = next_uuid d, node_type = ty, node_name = name,
                   canonical_name = normalizeName name, node_metadata = md,
                   extraction_confidence = c, node_extracted_by = by\<rparr>],
              next_uuid := Suc (next_uuid d)\<rparr>)"
  using assms by (simp add: upsert_def)

lemma upsert_step:
  assumes ty: "ty \<in> set node_type_enum" and uniq: "unique_node_keys d"
  shows "\<exists>d1 n1. upsert ty name md by c d = (Inr (node_id n1), d1)
            \<and> unique_node_keys d1
            \<and> find (node_key_is ty (normalizeName name)) (nodes d1) = Some n1
            \<and> n1 = (case find (node_key_is ty (normalizeName name)) (nodes d) of
                      Some old \<Rightarrow> merged_node md c old
                    | None \<Rightarrow>
                        \<lparr>node_id = next_uuid d, node_type = ty, node_name = name,
                         canonical_name = normalizeName name, node_metadata = md,
                         extraction_confidence = c, node_extracted_by = by\<rparr>)"
proof (cases "find (node_key_is ty (normalizeName name)) (nodes d)")
  case None
  let ?new = "\<lparr>node_id = next_uuid d, node_type = ty, node_name = name,
                canonical_name = normalizeName name, node_metadata = md,
                extraction_confidence = c, node_extracted_by = by\<rparr>"
  let ?d1 = "d\<lparr>nodes := nodes d @ [?new], next_uuid := Suc (next_uuid d)\<rparr>"
  have key: "node_key_is ty (normalizeName name) ?new" by (simp add: node_key_is_def)
  from None have no: "\<forall>n \<in> set (nodes d). \<not> node_key_is ty (normalizeName name) n"
    by (simp add: find_None_iff)
  have "upsert ty name md by c d = (Inr (node_id ?new), ?d1)"
    using upsert_fresh[OF ty None] by simp
  moreover have "unique_node_keys ?d1"
    using uniq no by (auto simp: unique_node_keys_def node_key_is_def)
  moreover have "find (node_key_is ty (normalizeName name)) (nodes ?d1) = Some ?new"
    using find_snoc[OF None key] by simp
  ultimately show ?thesis using None by auto
next
  case (Some old)
  let ?P = "node_key_is ty (normalizeName name)"
  let ?d1 = "d\<lparr>nodes := map (\<lambda>n. if ?P n then merged_node md c n else n) (nodes d)\<rparr>"
  have pres: "\<And>n. ?P (merged_node md c n) = ?P n"
    by (simp add: node_key_is_def merged_node_def)
  have "upsert ty name md by c d = (Inr (node_id (merged_node md c old)), ?d1)"
    using upsert_existing[OF ty Some] by (simp add: merged_node_def)
  moreover have "map (\<lambda>n. (node_type n, canonical_name n))
                   (map (\<lambda>n. if ?P n then merged_node md c n else n) (nodes d))
                 = map (\<lambda>n. (node_type n, canonical_name n)) (nodes d)"
    by (rule map_key_update) (simp add: merged_node_def)
  then have "unique_node_keys ?d1"
    using uniq by (simp add: unique_node_keys_def del: map_map)
  moreover have "find ?P (nodes ?d1) = Some (merged_node md c old)"
    using find_map_update[of ?P "merged_node md c", OF pres] Some by simp
  ultimately show ?thesis using Some by auto
qed

text \<open>
  Claim C1. For a type of the enum and a store that satisfies its uniqueness
  constraint, two upserts whose names have the same canonical form return the same id;
  after each of them exactly one node has the key. The first call merges into the node
  that was there (metadata \<open>old ++ new\<close>, so new top-level keys win; confidence
  \<open>max old new\<close>) or creates it; the second call merges into the result of the first,
  and the confidence does not decrease.
\<close>

theorem upsert_convergent:
  assumes ty: "ty \<in> set node_type_enum"
      and uniq: "unique_node_keys d"
      and same: "normalizeName name' = normalizeName name"
  shows "\<exists>i d1 d2 n1 n2.
           upsert ty name md by c d = (Inr i, d1)
         \<and> upsert ty name' md' by' c' d1 = (Inr i, d2)
         \<and> nodes_with_key ty (normalizeName name) d1 = [n1] \<and> node_id n1 = i
         \<and> nodes_with_key ty (normalizeName name) d2 = [n2] \<and> node_id n2 = i
         \<and> n1 = (case find (node_key_is ty (normalizeName name)) (nodes d) of
                   Some old \<Rightarrow>
                     old\<lparr>node_metadata := node_metadata old ++ md,
                         extraction_confidence := max (extraction_confidence old) c\<rparr>
                 | None \<Rightarrow>
                     \<lparr>node_id = next_uuid d, node_type = ty, node_name = name,
                      canonical_name = normalizeName name, node_metadata = md,
                      extraction_confidence = c, node_extracted_by = by\<rparr>)
         \<and> n2 = n1\<lparr>node_metadata := node_metadata n1 ++ md',
                    extraction_confidence := max (extraction_confidence n1) c'\<rparr>
         \<and> extraction_confidence n1 \<le> extraction_confidence n2"
proof -
  let ?cn = "normalizeName name"
  from upsert_step[OF ty uniq, of name md "by" c] obtain d1 n1 where
    s1: "upsert ty name md by c d = (Inr (node_id n1), d1)" and
    u1: "unique_node_keys d1" and
    f1: "find (node_key_is ty ?cn) (nodes d1) = Some n1" and
    n1: "n1 = (case find (node_key_is ty ?cn) (nodes d) of
                 Some old \<Rightarrow> merged_node md c old
               | None \<Rightarrow>
                   \<lparr>node_id = next_uuid d, node_type = ty, node_name = name,
                    canonical_name = ?cn, node_metadata = md,
                    extraction_confidence = c, node_extracted_by = by\<rparr>)"
    by blast
  from upsert_step[OF ty u1, of name' md' by' c'] same f1 obtain d2 n2 where
    s2: "upsert ty name' md' by' c' d1 = (Inr (node_id n2), d2)" and
    u2: "unique_node_keys d2" and
    f2: "find (node_key_is ty ?cn) (nodes d2) = Some n2" and
    n2: "n2 = merged_node md' c' n1"
    by auto
  have id: "node_id n2 = node_id n1" using n2 by (simp add: merged_node_def)
  have w1: "nodes_with_key ty ?cn d1 = [n1]" by (rule nodes_with_key_unique[OF u1 f1])
  have w2: "nodes_with_key ty ?cn d2 = [n2]" by (rule nodes_with_key_unique[OF u2 f2])
  have le: "extraction_confidence n1 \<le> extraction_confidence n2"
    using n2 by (simp add: merged_node_def)
  show ?thesis
    apply (rule exI[of _ "node_id n1"], rule exI[of _ d1], rule exI[of _ d2],
           rule exI[of _ n1], rule exI[of _ n2])
    using s1 s2 id w1 w2 le n1 n2
    by (simp add: merged_node_def split: option.splits)
qed

theorem upsert_convergent_witness:
  "''concept'' \<in> set node_type_enum \<and> unique_node_keys empty_db
   \<and> normalizeName '' x  '' = normalizeName ''X''
   \<and> fst (upsert ''concept'' ''X'' ex_metadata_a ''a'' (6/10) empty_db) = Inr 0
   \<and> fst (upsert ''concept'' '' x  '' ex_metadata_b ''b'' (9/10)
            (snd (upsert ''concept'' ''X'' ex_metadata_a ''a'' (6/10) empty_db))) = Inr 0
   \<and> map extraction_confidence
        (nodes_with_key ''concept'' ''x''
           (snd (upsert ''concept'' '' x  '' ex_metadata_b ''b'' (9/10)
                   (snd (upsert ''concept'' ''X'' ex_metadata_a ''a'' (6/10) empty_db)))))
       = [9/10]"
proof -
  have h1: "''concept'' \<in> set node_type_enum" by (simp add: node_type_enum_def)
  have h2: "unique_node_keys empty_db" by (simp add: unique_node_keys_def empty_db_def)
  have h3: "normalizeName '' x  '' = normalizeName ''X''" by (simp add: normalize_defs)
  have h4: "normalizeName ''X'' = ''x''" by (simp add: normalize_defs)
  from upsert_convergent[OF h1 h2 h3, of ex_metadata_a "''a''" "6/10" ex_metadata_b "''b''" "9/10"]
  show ?thesis using h1 h2 h3 h4 by (auto simp: empty_db_def)
qed


section \<open>Node store: no validation\<close>

text \<open>
  Claim C8, amended. \<open>upsert\<close> validates nothing itself. With an empty name and a type
  of the enum it succeeds: it returns the id of a node whose canonical name is empty,
  which it creates when there was none. With a type outside the enum the database
  rejects the statement with its own error and the store is unchanged.
\<close>

theorem upsert_validates_nothing:
  assumes "ty \<in> set node_type_enum" and "bad \<notin> set node_type_enum"
  shows "(\<exists>i d'. upsert ty [] md by c d = (Inr i, d')
            \<and> i \<in> node_id ` set (nodes_with_key ty [] d')
            \<and> length (nodes d') =
                (if nodes_with_key ty [] d = [] then Suc (length (nodes d))
                 else length (nodes d)))
       \<and> upsert bad name md by c d =
           (Inl (PostgresError ''invalid input value for enum node_type''), d)"
proof -
  have n: "normalizeName [] = []" by (simp add: normalize_defs)
  have "\<exists>i d'. upsert ty [] md by c d = (Inr i, d')
            \<and> i \<in> node_id ` set (nodes_with_key ty [] d')
            \<and> length (nodes d') =
                (if nodes_with_key ty [] d = [] then Suc (length (nodes d))
                 else length (nodes d))"
  proof (cases "find (node_key_is ty []) (nodes d)")
    case None
    then have "nodes_with_key ty [] d = []"
      by (simp add: nodes_with_key_def find_None_filter)
    with None assms(1) n show ?thesis
      by (force simp: upsert_def nodes_with_key_def node_key_is_def image_iff)
  next
    case (Some old)
    then have k: "node_key_is ty [] old" and m: "old \<in> set (nodes d)"
      by (auto simp: find_Some_iff)
    then have "nodes_with_key ty [] d \<noteq> []"
      by (auto simp: nodes_with_key_def filter_empty_conv)
    moreover have "node_id old \<in> node_id ` set (nodes_with_key ty [] 
        (d\<lparr>nodes := map (\<lambda>n. if node_key_is ty [] n then merged_node md c n else n) (nodes d)\<rparr>))"
    proof -
      have "filter (node_key_is ty []) (map (\<lambda>n. if node_key_is ty [] n then merged_node md c n else n) (nodes d))
            = map (merged_node md c) (filter (node_key_is ty []) (nodes d))"
        by (rule filter_map_update) (simp add: node_key_is_def merged_node_def)
      moreover have "old \<in> set (filter (node_key_is ty []) (nodes d))" using k m by simp
      moreover have "node_id (merged_node md c old) = node_id old" by (simp add: merged_node_def)
      ultimately show ?thesis by (simp add: nodes_with_key_def image_iff) metis
    qed
    ultimately show ?thesis
      using Some assms(1) n upsert_existing[of ty "[]" d old md "by" c] by simp
  qed
  moreover have "upsert bad name md by c d =
           (Inl (PostgresError ''invalid input value for enum node_type''), d)"
    using assms(2) by (simp add: upsert_def)
  ultimately show ?thesis by blast
qed

theorem upsert_validates_nothing_witness:
  "''concept'' \<in> set node_type_enum \<and> ''gadget'' \<notin> set node_type_enum
   \<and> fst (upsert ''gadget'' ''X'' no_metadata ''system'' 1 ex_two_nodes)
       = Inl (PostgresError ''invalid input value for enum node_type'')
   \<and> snd (upsert ''gadget'' ''X'' no_metadata ''system'' 1 ex_two_nodes) = ex_two_nodes
   \<and> length (nodes (snd (upsert ''concept'' [] no_metadata ''system'' 1 ex_two_nodes))) = 3"
proof -
  have h1: "''concept'' \<in> set node_type_enum" by (simp add: node_type_enum_def)
  have h2: "''gadget'' \<notin> set node_type_enum" by (simp add: node_type_enum_def)
  have e: "nodes_with_key ''concept'' [] ex_two_nodes = [] \<and> length (nodes ex_two_nodes) = 2"
    by (simp add: ex_two_nodes_def upsert_def empty_db_def node_type_enum_def normalize_defs
          node_key_is_def nodes_with_key_def)
  from upsert_validates_nothing[OF h1 h2, of no_metadata "''system''" 1 ex_two_nodes "''X''"]
  show ?thesis using h1 h2 e by auto
qed

text \<open>
  Claim C8 as stated fails: the upsert of an empty name into the empty store returns
  an id and leaves a node whose name is empty.
\<close>

theorem upsert_accepts_empty_name:
  "fst (upsert ''concept'' [] no_metadata ''system'' 1 empty_db) = Inr 0
   \<and> map node_name (nodes (snd (upsert ''concept'' [] no_metadata ''system'' 1 empty_db)))
       = [[]]"
  by (simp add: upsert_def empty_db_def node_type_enum_def normalize_defs)


section \<open>Edge store: merge on conflict\<close>

lemma edge_key_is_eq:
  "edge_key_is ty s t = (\<lambda>e. (edge_type e, source_id e, target_id e) = (ty, s, t))"
  by (auto simp: edge_key_is_def)

lemma edges_with_key_unique:
  "unique_edge_keys d \<Longrightarrow> find (edge_key_is ty s t) (edges d) = Some e \<Longrightarrow>
   edges_with_key ty s t d = [e]"
  unfolding unique_edge_keys_def edges_with_key_def edge_key_is_eq
  by (rule filter_unique_key)

lemma create_existing:
  assumes "ty \<in> set edge_type_enum"
      and "find (edge_key_is ty s t) (edges d) = Some old"
  shows "EdgeRepository_create ty s t description evidence c by md d =
           (Inr (edge_id old),
            d\<lparr>edges := map (\<lambda>e. if edge_key_is ty s t e
                                then merged_edge description evidence c md e else e)
                           (edges d)\<rparr>)"
  using assms by (simp add: EdgeRepository_create_def merged_edge_def)

text \<open>
  Claim C2, amended. On a conflict on \<^verbatim>\<open>(type, source_id, target_id)\<close>, for a type of
  the enum and a store that satisfies its uniqueness constraint, \<^verbatim>\<open>create\<close> returns the
  id of the existing edge and adds no row. The description and the evidence each become
  the incoming value when that is non-empty, whatever the existing value was, and stay
  as they were when the incoming value is absent or empty; the confidence becomes
  \<open>max old new\<close>; the metadata becomes \<open>old ++ new\<close>, so new top-level keys win.
\<close>

theorem create_merges_on_conflict:
  assumes ty: "ty \<in> set edge_type_enum"
      and uniq: "unique_edge_keys d"
      and ex: "find (edge_key_is ty s t) (edges d) = Some old"
  shows "\<exists>d'. EdgeRepository_create ty s t description evidence c by md d
                 = (Inr (edge_id old), d')
           \<and> length (edges d') = length (edges d)
           \<and> unique_edge_keys d'
           \<and> edges_with_key ty s t d' =
               [old\<lparr>edge_description :=
                      (case or_null description of
                         Some x \<Rightarrow> Some x
                       | None \<Rightarrow> edge_description old),
                    edge_evidence :=
                      (case or_null evidence of
                         Some x \<Rightarrow> Some x
                       | None \<Rightarrow> edge_evidence old),
                    edge_confidence := max (edge_confidence old) c,
                    edge_metadata := edge_metadata old ++ md\<rparr>]"
proof -
  let ?P = "edge_key_is ty s t"
  let ?g = "merged_edge description evidence c md"
  let ?d' = "d\<lparr>edges := map (\<lambda>e. if ?P e then ?g e else e) (edges d)\<rparr>"
  have pres: "\<And>e. ?P (?g e) = ?P e"
    by (simp add: edge_key_is_def merged_edge_def)
  have run: "EdgeRepository_create ty s t description evidence c by md d
               = (Inr (edge_id old), ?d')"
    by (rule create_existing[OF ty ex])
  have "map (\<lambda>e. (edge_type e, source_id e, target_id e))
          (map (\<lambda>e. if ?P e then ?g e else e) (edges d))
        = map (\<lambda>e. (edge_type e, source_id e, target_id e)) (edges d)"
    by (rule map_key_update) (simp add: merged_edge_def)
  then have u': "unique_edge_keys ?d'"
    using uniq by (simp add: unique_edge_keys_def del: map_map)
  have "find ?P (edges ?d') = Some (?g old)"
    using find_map_update[of ?P ?g, OF pres] ex by simp
  then have "edges_with_key ty s t ?d' = [?g old]"
    by (rule edges_with_key_unique[OF u'])
  then show ?thesis
    using run u' by (simp add: merged_edge_def coalesce_def)
qed

lemma ex_two_nodes_eval:
  "ex_two_nodes =
     \<lparr>nodes =
        [\<lparr>node_id = 0, node_type = ''method'', node_name = ''X'', canonical_name = ''x'',
          node_metadata = no_metadata, extraction_confidence = 1,
          node_extracted_by = ''system''\<rparr>,
         \<lparr>node_id = 1, node_type = ''method'', node_name = ''Y'', canonical_name = ''y'',
          node_metadata = no_metadata, extraction_confidence = 1,
          node_extracted_by = ''system''\<rparr>],
      edges = [], papers = [], extraction_logs = [], next_uuid = 2\<rparr>"
  by (simp add: ex_two_nodes_def upsert_def empty_db_def node_type_enum_def normalize_defs
        node_key_is_def)

lemma ex_one_edge_eval:
  "ex_one_edge =
     ex_two_nodes
       \<lparr>edges :=
          [\<lparr>edge_id = 2, edge_type = ''extends'', source_id = 0, target_id = 1,
            edge_description = None, edge_evidence = Some ''e1'',
            edge_confidence = 1/2, edge_extracted_by = ''system'',
            edge_metadata = no_metadata\<rparr>],
        next_uuid := 3\<rparr>"
  by (simp add: ex_one_edge_def ex_two_nodes_eval EdgeRepository_create_def
        edge_type_enum_def or_null_def)

theorem create_merges_on_conflict_witness:
  "''extends'' \<in> set edge_type_enum \<and> unique_edge_keys ex_one_edge
   \<and> map edge_evidence (edges ex_one_edge) = [Some ''e1'']
   \<and> map edge_confidence (edges ex_one_edge) = [1/2]
   \<and> map edge_evidence
        (edges (snd (EdgeRepository_create ''extends'' 0 1 None None (9/10) ''system''
                       no_metadata ex_one_edge))) = [Some ''e1'']
   \<and> map edge_confidence
        (edges (snd (EdgeRepository_create ''extends'' 0 1 None None (9/10) ''system''
                       no_metadata ex_one_edge))) = [9/10]"
proof -
  let ?old = "\<lparr>edge_id = 2, edge_type = ''extends'', source_id = 0, target_id = 1,
            edge_description = None, edge_evidence = Some ''e1'',
            edge_confidence = 1/2, edge_extracted_by = ''system'',
            edge_metadata = no_metadata\<rparr>"
  have h1: "''extends'' \<in> set edge_type_enum" by (simp add: edge_type_enum_def)
  have h2: "unique_edge_keys ex_one_edge"
    by (simp add: ex_one_edge_eval unique_edge_keys_def)
  have h3: "find (edge_key_is ''extends'' 0 1) (edges ex_one_edge) = Some ?old"
    by (simp add: ex_one_edge_eval edge_key_is_def)
  have e: "edges_with_key ''extends'' 0 1 d = edges d" if "length (edges d) = 1" "edges_with_key ''extends'' 0 1 d \<noteq> []" for d
    using that by (cases "edges d") (auto simp: edges_with_key_def split: if_splits)
  from create_merges_on_conflict[OF h1 h2 h3, of None None "9/10" "''system''" no_metadata]
  obtain d' where
    r: "EdgeRepository_create ''extends'' 0 1 None None (9/10) ''system'' no_metadata ex_one_edge = (Inr 2, d')"
    and l: "length (edges d') = length (edges ex_one_edge)"
    and k: "edges_with_key ''extends'' 0 1 d' =
        [?old\<lparr>edge_description := (case or_null None of Some x \<Rightarrow> Some x | None \<Rightarrow> edge_description ?old),
              edge_evidence := (case or_null None of Some x \<Rightarrow> Some x | None \<Rightarrow> edge_evidence ?old),
              edge_confidence := max (edge_confidence ?old) (9/10),
              edge_metadata := edge_metadata ?old ++ no_metadata\<rparr>]"
    by auto
  have "length (edges d') = 1" using l by (simp add: ex_one_edge_eval)
  with k e[of d'] have "edges d' = [?old\<lparr>edge_description := (case or_null None of Some x \<Rightarrow> Some x | None \<Rightarrow> edge_description ?old),
              edge_evidence := (case or_null None of Some x \<Rightarrow> Some x | None \<Rightarrow> edge_evidence ?old),
              edge_confidence := max (edge_confidence ?old) (9/10),
              edge_metadata := edge_metadata ?old ++ no_metadata\<rparr>]" by simp
  then show ?thesis using h1 h2 r by (simp add: or_null_def ex_one_edge_eval)
qed

text \<open>
  Claim C2 as stated fails: it keeps an existing non-empty evidence, but re-creating the
  edge with the non-empty evidence \<^verbatim>\<open>"e2"\<close> replaces the recorded \<^verbatim>\<open>"e1"\<close>.
\<close>

theorem create_replaces_existing_evidence:
  "map edge_evidence (edges ex_one_edge) = [Some ''e1'']
   \<and> map edge_evidence
        (edges (snd (EdgeRepository_create ''extends'' 0 1 None (Some ''e2'') (1/2)
                       ''system'' no_metadata ex_one_edge))) = [Some ''e2'']"
  by (simp add: ex_one_edge_eval EdgeRepository_create_def edge_type_enum_def
        edge_key_is_def or_null_def coalesce_def)


section \<open>Extraction agents: normalised confidences\<close>

text \<open>
  On a reply whose confidences are numbers, both agents return a list; every
  confidence in it lies between 0 and 1, and a candidate whose reported confidence is
  missing or is 0 gets the confidence 0.5. The relationship agent first drops the
  candidates with an endpoint that is neither an entity nor a known paper.
\<close>

lemma agents_normalize_confidence:
  assumes "entity_llm w p text = Inr parsed_entities"
      and "relationship_llm w p entities text' existingPapers = Inr parsed_relationships"
  shows "\<exists>es rs. EntityExtractorAgent_process w p text = Inr es
           \<and> RelationshipExtractorAgent_process w p entities text' existingPapers = Inr rs
           \<and> length es = length parsed_entities
           \<and> (\<forall>i < length es.
                 0 \<le> ent_confidence (es ! i) \<and> ent_confidence (es ! i) \<le> 1
               \<and> (re_confidence (parsed_entities ! i) = None
                    \<or> re_confidence (parsed_entities ! i) = Some 0
                  \<longrightarrow> ent_confidence (es ! i) = 1/2))
           \<and> rs = map normalize_relationship
                    (filter (\<lambda>rel. endpoint_exists entities existingPapers (rr_source rel) \<and>
                                   endpoint_exists entities existingPapers (rr_target rel))
                       parsed_relationships)
           \<and> (\<forall>r \<in> set rs. 0 \<le> rel_confidence r \<and> rel_confidence r \<le> 1)
           \<and> (\<forall>r \<in> set parsed_relationships.
                 rr_confidence r = None \<or> rr_confidence r = Some 0
                 \<longrightarrow> rel_confidence (normalize_relationship r) = 1/2)"
  using assms
  by (auto simp: EntityExtractorAgent_process_def RelationshipExtractorAgent_process_def
        normalize_entity_def normalize_relationship_def confidence_or_default_def)

lemma agents_normalize_confidence_example:
  "entity_llm ex_world ex_paper ''text'' = Inr ex_raw_entities
   \<and> relationship_llm ex_world ex_paper ex_entities ''text'' None = Inr ex_raw_relationships
   \<and> map re_confidence ex_raw_entities
       = [None, Some (9/10), Some 0, Some (3/2), Some (-2), Some (9/10)]
   \<and> (\<exists>es. EntityExtractorAgent_process ex_world ex_paper ''text'' = Inr es
          \<and> map ent_confidence es = [1/2, 9/10, 1/2, 1, 0, 9/10])
   \<and> (\<exists>rs. RelationshipExtractorAgent_process ex_world ex_paper ex_entities ''text'' None
            = Inr rs
          \<and> map rel_confidence rs = [1/2, 1/2, 1])"
proof -
  have h1: "entity_llm ex_world ex_paper ''text'' = Inr ex_raw_entities"
    by (simp add: ex_world_def ex_entity_llm_def)
  have h2: "relationship_llm ex_world ex_paper ex_entities ''text'' None
              = Inr ex_raw_relationships"
    by (simp add: ex_world_def ex_relationship_llm_def)
  from agents_normalize_confidence[OF h1 h2]
  obtain es rs where
    e: "EntityExtractorAgent_process ex_world ex_paper ''text'' = Inr es" and
    r: "RelationshipExtractorAgent_process ex_world ex_paper ex_entities ''text'' None = Inr rs"
    by blast
  have "es = map normalize_entity ex_raw_entities"
    using e h1 by (simp add: EntityExtractorAgent_process_def)
  then have "map ent_confidence es = [1/2, 9/10, 1/2, 1, 0, 9/10]"
    by (simp add: normalize_entity_def confidence_or_default_def ex_raw_entities_def
          raw_ent_def)
  moreover have "rs = map normalize_relationship
                   (filter (\<lambda>rel. endpoint_exists ex_entities None (rr_source rel) \<and>
                                  endpoint_exists ex_entities None (rr_target rel))
                      ex_raw_relationships)"
    using r h2 by (simp add: RelationshipExtractorAgent_process_def)
  then have "map rel_confidence rs = [1/2, 1/2, 1]"
    by (simp add: normalize_relationship_def
          confidence_or_default_def ex_raw_relationships_def raw_rel_def endpoint_exists_def
          ex_entities_def ex_raw_entities_def raw_ent_def normalize_entity_def
          toLowerCase_def toLowerCase_char_def)
  ultimately show ?thesis
    using h1 h2 e r by (simp add: ex_raw_entities_def raw_ent_def)
qed

text \<open>
  On a number, or without a confidence, the expression of the agents computes what
  \<open>confidence_or_default\<close> and the clamp on the reals compute.
\<close>

lemma normalize_confidence_numeric:
  "normalize_confidence rt (map_option (\<lambda>x. JNum (Num x)) c)
     = Num (max 0 (min 1 (confidence_or_default c)))"
  by (cases c) (simp_all add: normalize_confidence_def or_default_def confidence_or_default_def)

lemma normalize_confidence_number:
  "\<exists>x. normalize_confidence rt (Some (JNum n)) = Num x \<and> 0 \<le> x \<and> x \<le> 1"
  by (cases n) (auto simp: normalize_confidence_def or_default_def intro: exI[of _ "1/2"])

text \<open>
  Claim C10. A candidate without a confidence, or with the confidence 0, gets 0.5. But
  not every confidence that the agents return lies between 0 and 1: the reply of the
  language model is not checked, and for a confidence that is the string
  \<^verbatim>\<open>"high"\<close>, or any object, the expression yields \<^verbatim>\<open>NaN\<close>, which is no number between
  0 and 1; the candidate that the agent returns then has the confidence \<^verbatim>\<open>NaN\<close>.
\<close>

theorem normalize_confidence_not_a_number:
  "normalize_confidence rt None = Num (1/2)
   \<and> normalize_confidence rt (Some (JNum (Num 0))) = Num (1/2)
   \<and> normalize_confidence rt (Some (JStr ''high'')) = NaN
   \<and> normalize_confidence rt (Some (JObj kvs)) = NaN
   \<and> normalize_candidate rt ex_candidate ''confidence'' = Some (JNum NaN)
   \<and> (\<nexists>x. NaN = Num x \<and> 0 \<le> x \<and> x \<le> 1)"
  by (simp add: normalize_confidence_def normalize_candidate_def ex_candidate_def
        or_default_def is_space_def)


section \<open>Validation: one entity per canonical name\<close>

lemma update_fresh: "map_of al k = None \<Longrightarrow> AList.update k v al = al @ [(k, v)]"
  by (induction al) (auto split: if_splits)

lemma best_in_snoc_other:
  "best_in xs e \<Longrightarrow> entity_key x \<noteq> entity_key e \<Longrightarrow> best_in (xs @ [x]) e"
  unfolding best_in_def
  apply (elim exE conjE)
  subgoal for ys zs
    by (rule exI[of _ ys], rule exI[of _ "zs @ [x]"]) auto
  done

lemma best_in_snoc_le:
  "best_in xs e \<Longrightarrow> ent_confidence x \<le> ent_confidence e \<Longrightarrow> best_in (xs @ [x]) e"
  unfolding best_in_def
  apply (elim exE conjE)
  subgoal for ys zs
    by (rule exI[of _ ys], rule exI[of _ "zs @ [x]"]) auto
  done

lemma best_in_new:
  "\<forall>y \<in> set xs. entity_key y = entity_key x \<longrightarrow> ent_confidence y < ent_confidence x \<Longrightarrow>
   best_in (xs @ [x]) x"
  unfolding best_in_def
  by (rule exI[of _ xs], rule exI[of _ "[]"]) auto

lemma best_in_bound:
  "best_in xs e \<Longrightarrow> y \<in> set xs \<Longrightarrow> entity_key y = entity_key e \<Longrightarrow>
   ent_confidence y \<le> ent_confidence e"
  unfolding best_in_def by (elim exE conjE) (auto simp: less_imp_le)

lemma validate_step_inv:
  assumes d: "distinct (map fst seen)"
      and k: "fst ` set seen = entity_key ` set xs"
      and b: "\<And>k e. map_of seen k = Some e \<Longrightarrow> k = entity_key e \<and> best_in xs e"
  shows "distinct (map fst (validate_step seen x))
       \<and> fst ` set (validate_step seen x) = entity_key ` set (xs @ [x])
       \<and> (\<forall>k e. map_of (validate_step seen x) k = Some e
             \<longrightarrow> k = entity_key e \<and> best_in (xs @ [x]) e)"
proof (cases "map_of seen (entity_key x)")
  case None
  then have notin: "entity_key x \<notin> entity_key ` set xs"
    using k by (simp add: map_of_eq_None_iff)
  have step: "validate_step seen x = seen @ [(entity_key x, x)]"
    using None by (simp add: validate_step_def entity_key_def[symmetric] update_fresh Let_def)
  have "distinct (map fst (seen @ [(entity_key x, x)]))"
    using d None by (simp add: map_of_eq_None_iff)
  moreover have "fst ` set (seen @ [(entity_key x, x)]) = entity_key ` set (xs @ [x])"
    using k by auto
  moreover have "k' = entity_key e \<and> best_in (xs @ [x]) e"
    if m: "map_of (seen @ [(entity_key x, x)]) k' = Some e" for k' e
  proof (cases "map_of seen k'")
    case (Some e')
    with m have "e' = e" by (simp add: map_add_def)
    with Some b have ke: "k' = entity_key e" and be: "best_in xs e" by auto
    from Some have "k' \<in> fst ` set seen" by (metis map_of_eq_None_iff option.distinct(1))
    with k notin ke have "entity_key x \<noteq> entity_key e" by auto
    with be ke show ?thesis by (simp add: best_in_snoc_other)
  next
    case None
    with m have "k' = entity_key x" "e = x" by (auto simp: map_add_def split: if_splits)
    moreover have "\<forall>y \<in> set xs. entity_key y \<noteq> entity_key x"
      using notin by (metis imageI)
    then have "best_in (xs @ [x]) x"
      by (intro best_in_new) blast
    ultimately show ?thesis by simp
  qed
  ultimately show ?thesis unfolding step by blast
next
  case (Some existing)
  from b[OF Some] have bex: "best_in xs existing" and kex: "entity_key x = entity_key existing"
    by auto
  show ?thesis
  proof (cases "ent_confidence x > ent_confidence existing")
    case True
    have step: "validate_step seen x = AList.update (entity_key x) x seen"
      using Some True by (simp add: validate_step_def entity_key_def[symmetric] Let_def)
    have "distinct (map fst (AList.update (entity_key x) x seen))"
      using d by (rule distinct_update)
    moreover have "fst ` set (AList.update (entity_key x) x seen) = entity_key ` set (xs @ [x])"
      using k by (auto simp: dom_update)
    moreover have "k' = entity_key e \<and> best_in (xs @ [x]) e"
      if m: "map_of (AList.update (entity_key x) x seen) k' = Some e" for k' e
    proof (cases "k' = entity_key x")
      case True
      with m have "e = x" by (simp add: update_conv')
      moreover have "\<forall>y \<in> set xs. entity_key y = entity_key x \<longrightarrow> ent_confidence y < ent_confidence x"
        using best_in_bound[OF bex] kex \<open>ent_confidence x > ent_confidence existing\<close> by force
      ultimately show ?thesis using True by (simp add: best_in_new)
    next
      case False
      with m have "map_of seen k' = Some e" by (simp add: update_conv')
      with b have "k' = entity_key e" "best_in xs e" by auto
      with False show ?thesis by (simp add: best_in_snoc_other)
    qed
    ultimately show ?thesis unfolding step by blast
  next
    case False
    have step: "validate_step seen x = seen"
      using Some False by (simp add: validate_step_def entity_key_def[symmetric] Let_def)
    have "entity_key x \<in> fst ` set seen"
      using Some by (metis map_of_eq_None_iff option.distinct(1))
    then have "fst ` set seen = entity_key ` set (xs @ [x])" using k by auto
    moreover have "k' = entity_key e \<and> best_in (xs @ [x]) e"
      if m: "map_of seen k' = Some e" for k' e
    proof (cases "k' = entity_key x")
      case True
      with m Some have "e = existing" by simp
      with bex False True kex show ?thesis by (simp add: best_in_snoc_le)
    next
      case False
      from b[OF m] have "k' = entity_key e" "best_in xs e" by auto
      with False show ?thesis by (simp add: best_in_snoc_other)
    qed
    ultimately show ?thesis unfolding step using d by blast
  qed
qed

lemma validate_fold_inv:
  "distinct (map fst (foldl validate_step [] xs))
   \<and> fst ` set (foldl validate_step [] xs) = entity_key ` set xs
   \<and> (\<forall>k e. map_of (foldl validate_step [] xs) k = Some e
         \<longrightarrow> k = entity_key e \<and> best_in xs e)"
proof (induction xs rule: rev_induct)
  case Nil
  show ?case by simp
next
  case (snoc x xs)
  then show ?case using validate_step_inv[of "foldl validate_step [] xs" xs x] by simp
qed

text \<open>
  Claim C7. \<^verbatim>\<open>validateEntities\<close> returns exactly one entity for each canonical name of
  its input. Each entity it returns stands in the input at a place where every earlier
  candidate of the same canonical name has a strictly lower confidence and every later
  one at most the same confidence: it is the first candidate of maximal confidence in
  its group.
\<close>

theorem validateEntities_keeps_best:
  "distinct (map (\<lambda>e. normalizeName (ent_name e)) (validateEntities entities))
   \<and> set (map (\<lambda>e. normalizeName (ent_name e)) (validateEntities entities))
       = set (map (\<lambda>e. normalizeName (ent_name e)) entities)
   \<and> (\<forall>e \<in> set (validateEntities entities).
         \<exists>ys zs. entities = ys @ e # zs
           \<and> (\<forall>y \<in> set ys. normalizeName (ent_name y) = normalizeName (ent_name e)
                 \<longrightarrow> ent_confidence y < ent_confidence e)
           \<and> (\<forall>z \<in> set zs. normalizeName (ent_name z) = normalizeName (ent_name e)
                 \<longrightarrow> ent_confidence z \<le> ent_confidence e))"
proof -
  let ?seen = "foldl validate_step [] entities"
  from validate_fold_inv[of entities] have
    d: "distinct (map fst ?seen)" and
    k: "fst ` set ?seen = entity_key ` set entities" and
    b: "\<And>k e. map_of ?seen k = Some e \<Longrightarrow> k = entity_key e \<and> best_in entities e"
    by blast+
  have mem: "k = entity_key e \<and> best_in entities e" if "(k, e) \<in> set ?seen" for k e
    using that d b by (simp add: map_of_eq_Some_iff)
  have keys: "map entity_key (map snd ?seen) = map fst ?seen"
    using mem by (auto simp: map_eq_conv)
  have 1: "distinct (map entity_key (validateEntities entities))"
    using d keys by (simp add: validateEntities_def del: map_map)
  have 2: "set (map entity_key (validateEntities entities)) = set (map entity_key entities)"
    using k keys by (simp add: validateEntities_def del: map_map)
  have 3: "\<forall>e \<in> set (validateEntities entities). best_in entities e"
    using mem by (auto simp: validateEntities_def)
  have fold: "(\<lambda>e. normalizeName (ent_name e)) = entity_key"
    by (simp add: entity_key_def fun_eq_iff)
  from 1 2 3 show ?thesis
    unfolding best_in_def fold[symmetric] by simp
qed

theorem validateEntities_keeps_best_witness:
  "map ent_name (validateEntities ex_entities) = [''nerf'', ''Splat'', ''PSNR'', ''Blur'']
   \<and> map ent_confidence (validateEntities ex_entities) = [9/10, 1/2, 1, 0]"
proof -
  have "validateEntities ex_entities =
          map normalize_entity
            [raw_ent ''nerf'' ''method'' (Some (9/10)), raw_ent ''Splat'' ''method'' (Some 0),
             raw_ent ''PSNR'' ''metric'' (Some (3/2)), raw_ent ''Blur'' ''challenge'' (Some (-2))]"
    by (simp add: validateEntities_def validate_step_def ex_entities_def ex_raw_entities_def
          raw_ent_def normalize_entity_def confidence_or_default_def normalize_defs Let_def)
  then show ?thesis
    using validateEntities_keeps_best[of ex_entities]
    by (simp add: raw_ent_def normalize_entity_def confidence_or_default_def)
qed


section \<open>Edge store: batch creation needs both endpoints\<close>

lemma create_nodes:
  "nodes (snd (EdgeRepository_create ty s t de ev c by md d)) = nodes d"
  by (simp add: EdgeRepository_create_def split: option.splits)

lemma create_for_nodes: "create_for rel s t eb d = (r, d') \<Longrightarrow> nodes d' = nodes d"
  using create_nodes[of "rel_type rel" s t "rel_description rel" "rel_evidence rel"
      "rel_confidence rel" eb "case rel_metadata rel of None \<Rightarrow> Map.empty | Some md \<Rightarrow> md" d]
  by (simp add: create_for_def)

lemma resolve_nodes:
  "nodes d' = nodes d \<Longrightarrow> resolveEntityId w n pid m d' = resolveEntityId w n pid m d"
  by (cases "m (normalizeName n)")
     (simp_all add: resolveEntityId_def NodeRepository_findById_def Let_def)

lemma both_resolve_nodes:
  "nodes d' = nodes d \<Longrightarrow> both_resolve w pid m d' = both_resolve w pid m d"
  using resolve_nodes[of d' d w _ pid m] by (simp add: both_resolve_def fun_eq_iff)

lemma loop_skip:
  assumes "\<not> both_resolve w pid m d rel"
  shows "createRelationships_loop w (rel # rest) pid m eb n d
           = createRelationships_loop w rest pid m eb n d"
  using assms by (auto simp: both_resolve_def split: option.splits)

lemma loop_create:
  assumes "resolveEntityId w (rel_source rel) pid m d = Some s"
      and "resolveEntityId w (rel_target rel) pid m d = Some t"
      and "create_for rel s t eb d = (r, d')"
  shows "createRelationships_loop w (rel # rest) pid m eb n d
           = createRelationships_loop w rest pid m eb (if fulfilled r then n + 1 else n) d'"
  using assms by (cases r) (simp_all add: create_for_def fulfilled_def)

declare createRelationships_loop.simps(2) [simp del]

lemma loop_cases:
  obtains (skip) "\<not> both_resolve w pid m d rel"
  | (create) s t r d' where "resolveEntityId w (rel_source rel) pid m d = Some s"
      "resolveEntityId w (rel_target rel) pid m d = Some t"
      "create_for rel s t eb d = (r, d')" "nodes d' = nodes d" "both_resolve w pid m d rel"
proof (cases "both_resolve w pid m d rel")
  case False
  then show ?thesis by (rule skip)
next
  case True
  then obtain s t where s: "resolveEntityId w (rel_source rel) pid m d = Some s"
    and t: "resolveEntityId w (rel_target rel) pid m d = Some t"
    by (auto simp: both_resolve_def)
  obtain r d' where c: "create_for rel s t eb d = (r, d')"
    by (cases "create_for rel s t eb d")
  show ?thesis by (rule create[OF s t c create_for_nodes[OF c] True])
qed

lemma loop_nodes:
  "nodes (snd (createRelationships_loop w rels pid m eb n d)) = nodes d"
proof (induction rels arbitrary: n d)
  case Nil
  show ?case by simp
next
  case (Cons rel rest)
  show ?case
  proof (cases rule: loop_cases[where w=w and pid=pid and m=m and d=d and rel=rel and eb=eb])
    case skip
    then show ?thesis using Cons.IH by (simp add: loop_skip)
  next
    case (create s t r d')
    then show ?thesis using Cons.IH[where d=d'] by (simp add: loop_create)
  qed
qed

lemma loop_count:
  "createRelationships_loop w rels pid m eb n d =
     (n + fst (createRelationships_loop w rels pid m eb 0 d),
      snd (createRelationships_loop w rels pid m eb 0 d))"
proof (induction rels arbitrary: n d)
  case Nil
  show ?case by simp
next
  case (Cons rel rest)
  show ?case
  proof (cases rule: loop_cases[where w=w and pid=pid and m=m and d=d and rel=rel and eb=eb])
    case skip
    then show ?thesis using Cons.IH[where n=n and d=d] by (simp add: loop_skip)
  next
    case (create s t r d')
    show ?thesis
      unfolding loop_create[OF create(1,2,3)]
      using Cons.IH[where n="if fulfilled r then n + 1 else n" and d=d']
            Cons.IH[where n="if fulfilled r then 0 + 1 else 0" and d=d']
      by simp
  qed
qed

lemma loop_filter:
  "createRelationships_loop w (filter (both_resolve w pid m d) rels) pid m eb n d
     = createRelationships_loop w rels pid m eb n d"
proof (induction rels arbitrary: n d)
  case Nil
  show ?case by simp
next
  case (Cons rel rest)
  show ?case
  proof (cases rule: loop_cases[where w=w and pid=pid and m=m and d=d and rel=rel and eb=eb])
    case skip
    then show ?thesis using Cons.IH by (simp add: loop_skip)
  next
    case (create s t r d')
    have b: "both_resolve w pid m d' = both_resolve w pid m d"
      using create(4) by (rule both_resolve_nodes)
    show ?thesis
      using create(5) Cons.IH[where d=d'] b
      by (simp add: loop_create[OF create(1,2,3)])
  qed
qed

lemma loop_bound:
  "fst (createRelationships_loop w rels pid m eb n d)
     \<le> n + length (filter (both_resolve w pid m d) rels)"
proof (induction rels arbitrary: n d)
  case Nil
  show ?case by simp
next
  case (Cons rel rest)
  show ?case
  proof (cases rule: loop_cases[where w=w and pid=pid and m=m and d=d and rel=rel and eb=eb])
    case skip
    then show ?thesis using Cons.IH[where n=n and d=d] by (simp add: loop_skip)
  next
    case (create s t r d')
    have b: "both_resolve w pid m d' = both_resolve w pid m d"
      using create(4) by (rule both_resolve_nodes)
    show ?thesis
      using create(5) Cons.IH[where d=d' and n="if fulfilled r then n + 1 else n"] b
      by (simp add: loop_create[OF create(1,2,3)] split: if_splits)
  qed
qed

text \<open>
  Claim C4, amended. A relationship of the batch leads to an edge only if both of its
  endpoint names resolve: the relationships with an unresolved endpoint can be removed
  from the batch without changing the number returned or the resulting store, and that
  number is at most the number of relationships with two resolved endpoints. The batch
  never stops early: processing \<^verbatim>\<open>rel\<close> and then the rest gives the sum of the two
  counts. A single relationship counts 1 when both endpoints resolve and the insert
  succeeds, and 0 otherwise (an insert that fails is caught).
\<close>

theorem createRelationships_needs_both_endpoints:
  "createRelationships w relationships paperId m eb d
     = createRelationships w
         (filter (\<lambda>rel. resolveEntityId w (rel_source rel) paperId m d \<noteq> None \<and>
                        resolveEntityId w (rel_target rel) paperId m d \<noteq> None)
            relationships) paperId m eb d
   \<and> fst (createRelationships w relationships paperId m eb d)
       \<le> length (filter (\<lambda>rel. resolveEntityId w (rel_source rel) paperId m d \<noteq> None \<and>
                                resolveEntityId w (rel_target rel) paperId m d \<noteq> None)
                    relationships)
   \<and> createRelationships w (rel # rest) paperId m eb d
       = (case createRelationships w [rel] paperId m eb d of
            (c1, d1) \<Rightarrow>
              (case createRelationships w rest paperId m eb d1 of
                 (c2, d2) \<Rightarrow> (c1 + c2, d2)))
   \<and> createRelationships w [rel] paperId m eb d
       = (case resolveEntityId w (rel_source rel) paperId m d of
            None \<Rightarrow> (0, d)
          | Some s \<Rightarrow>
              (case resolveEntityId w (rel_target rel) paperId m d of
                 None \<Rightarrow> (0, d)
               | Some t \<Rightarrow>
                   (case EdgeRepository_create (rel_type rel) s t (rel_description rel)
                           (rel_evidence rel) (rel_confidence rel) eb
                           (case rel_metadata rel of None \<Rightarrow> Map.empty | Some md \<Rightarrow> md) d of
                      (Inl e, d') \<Rightarrow> (0, d')
                    | (Inr i, d') \<Rightarrow> (1, d'))))"
proof -
  have f: "(\<lambda>rel. resolveEntityId w (rel_source rel) paperId m d \<noteq> None \<and>
                  resolveEntityId w (rel_target rel) paperId m d \<noteq> None)
           = both_resolve w paperId m d"
    by (simp add: both_resolve_def fun_eq_iff)
  have 1: "createRelationships w relationships paperId m eb d
     = createRelationships w (filter (both_resolve w paperId m d) relationships) paperId m eb d"
    by (simp add: createRelationships_def loop_filter)
  have 2: "fst (createRelationships w relationships paperId m eb d)
       \<le> length (filter (both_resolve w paperId m d) relationships)"
    using loop_bound[of w relationships paperId m eb 0 d] by (simp add: createRelationships_def)
  have 4: "createRelationships w [rel] paperId m eb d
       = (case resolveEntityId w (rel_source rel) paperId m d of
            None \<Rightarrow> (0, d)
          | Some s \<Rightarrow>
              (case resolveEntityId w (rel_target rel) paperId m d of
                 None \<Rightarrow> (0, d)
               | Some t \<Rightarrow>
                   (case EdgeRepository_create (rel_type rel) s t (rel_description rel)
                           (rel_evidence rel) (rel_confidence rel) eb
                           (case rel_metadata rel of None \<Rightarrow> Map.empty | Some md \<Rightarrow> md) d of
                      (Inl e, d') \<Rightarrow> (0, d')
                    | (Inr i, d') \<Rightarrow> (1, d'))))"
    by (simp add: createRelationships_def createRelationships_loop.simps(2)
          split: option.splits sum.splits prod.splits)
  have 3: "createRelationships w (rel # rest) paperId m eb d
       = (case createRelationships w [rel] paperId m eb d of
            (c1, d1) \<Rightarrow>
              (case createRelationships w rest paperId m eb d1 of
                 (c2, d2) \<Rightarrow> (c1 + c2, d2)))"
  proof (cases rule: loop_cases[where w=w and pid=paperId and m=m and d=d and rel=rel and eb=eb])
    case skip
    then show ?thesis
      by (simp add: createRelationships_def loop_skip split: prod.splits)
  next
    case (create s t r d')
    show ?thesis
      unfolding createRelationships_def loop_create[OF create(1,2,3)]
      using loop_count[of w rest paperId m eb "if fulfilled r then 0 + 1 else 0" d']
      by (simp split: prod.splits)
  qed
  show ?thesis unfolding f using 1 2 3 4 by blast
qed

lemma ex_resolve:
  "resolveEntityId ex_world ''X'' 7 ex_map ex_two_nodes = Some 0"
  "resolveEntityId ex_world ''Y'' 7 ex_map ex_two_nodes = Some 1"
  "resolveEntityId ex_world ''Unknown'' 7 ex_map ex_two_nodes = None"
  by (simp_all add: resolveEntityId_def ex_map_def ex_two_nodes_eval normalize_defs
        NodeRepository_findById_def ex_world_def ex_search_def)

theorem createRelationships_needs_both_endpoints_witness:
  "createRelationships ex_world [ex_rel ''X'' ''Y'', ex_rel ''X'' ''Unknown'', ex_rel ''Y'' ''X'']
       7 ex_map ''RelationshipExtractor'' ex_two_nodes
     = createRelationships ex_world [ex_rel ''X'' ''Y'', ex_rel ''Y'' ''X'']
         7 ex_map ''RelationshipExtractor'' ex_two_nodes"
  using createRelationships_needs_both_endpoints[of ex_world
        "[ex_rel ''X'' ''Y'', ex_rel ''X'' ''Unknown'', ex_rel ''Y'' ''X'']" 7 ex_map
        "''RelationshipExtractor''" ex_two_nodes, THEN conjunct1] ex_resolve
  by (simp add: ex_rel_def)

text \<open>
  Claim C4 as stated fails: with the source resolved and the target unresolved no edge
  is created and the store is unchanged.
\<close>

theorem createRelationships_skips_half_resolved:
  "resolveEntityId ex_world ''X'' 7 ex_map ex_two_nodes = Some 0
   \<and> resolveEntityId ex_world ''Unknown'' 7 ex_map ex_two_nodes = None
   \<and> createRelationships ex_world [ex_rel ''X'' ''Unknown''] 7 ex_map
        ''RelationshipExtractor'' ex_two_nodes = (0, ex_two_nodes)"
proof -
  have "createRelationships ex_world [ex_rel ''X'' ''Unknown''] 7 ex_map
          ''RelationshipExtractor'' ex_two_nodes = (0, ex_two_nodes)"
    using ex_resolve(1) ex_resolve(3)
    by (simp add: createRelationships_def createRelationships_loop.simps(2) ex_rel_def)
  then show ?thesis
    by (intro conjI ex_resolve(1) ex_resolve(3))
qed


section \<open>Orchestrator: what is logged\<close>

lemma logExtraction_eq:
  "logExtraction pid a ty i out s e d =
     (if pid \<in> paper_id ` set (papers d)
      then d\<lparr>extraction_logs := extraction_logs d @
               [\<lparr>log_paper_id = pid, agent_name = a, extraction_type = ty, input_data = i,
                 output_data = out, success = s, error_message = or_null e\<rparr>]\<rparr>
      else d)"
  by (simp add: logExtraction_def insert_extraction_log_def)

lemma logExtraction_papers [simp]: "papers (logExtraction pid a ty i out s e d) = papers d"
  by (simp add: logExtraction_eq)


lemma getExistingPapers_logExtraction [simp]:
  "getExistingPapers (logExtraction pid a ty i out s e d) = getExistingPapers d"
  by (simp add: getExistingPapers_def)

lemma processPaper_entity_error:
  assumes "EntityExtractorAgent_process w p fullText = Inl e"
  shows "processPaper w p fullText d =
           (Inl e,
            logExtraction (paper_id p) ''Orchestrator'' ''full_pipeline''
              [(''text_length'', length fullText)] [] False (Some (message e)) d)"
  using assms by (simp add: processPaper_def)

lemma processPaper_relationship_error:
  assumes "EntityExtractorAgent_process w p fullText = Inr entities"
      and "RelationshipExtractorAgent_process w p entities fullText
             (Some (getExistingPapers d)) = Inl e"
  shows "processPaper w p fullText d =
           (Inl e,
            logExtraction (paper_id p) ''Orchestrator'' ''full_pipeline''
              [(''text_length'', length fullText)] [] False (Some (message e))
              (logExtraction (paper_id p) ''EntityExtractor'' ''entity''
                 [(''text_length'', length fullText)]
                 [(''entity_count'', length entities)] True None d))"
  using assms by (simp add: processPaper_def Let_def)

lemma processPaper_success:
  assumes "EntityExtractorAgent_process w p fullText = Inr entities"
      and "RelationshipExtractorAgent_process w p entities fullText
             (Some (getExistingPapers d)) = Inr relationships"
  shows "processPaper w p fullText d =
           (Inr \<lparr>pa_paper_id = paper_id p, pa_entities = validateEntities entities,
                 pa_relationships =
                   validateRelationships relationships (validateEntities entities)\<rparr>,
            logExtraction (paper_id p) ''RelationshipExtractor'' ''relationship''
              [(''entity_count'', length entities),
               (''existing_papers'', length (getExistingPapers d))]
              [(''relationship_count'', length relationships)] True None
              (logExtraction (paper_id p) ''EntityExtractor'' ''entity''
                 [(''text_length'', length fullText)]
                 [(''entity_count'', length entities)] True None d))"
  using assms by (simp add: processPaper_def Let_def)

lemma processPaper_papers [simp]: "papers (snd (processPaper w p fullText d)) = papers d"
proof (cases "EntityExtractorAgent_process w p fullText")
  case (Inl e)
  then show ?thesis by (simp add: processPaper_entity_error)
next
  case (Inr entities)
  then show ?thesis
    by (cases "RelationshipExtractorAgent_process w p entities fullText
                 (Some (getExistingPapers d))")
       (simp_all add: processPaper_relationship_error processPaper_success)
qed







section \<open>Ingestion of one paper\<close>

lemma upsert_papers [simp]: "papers (snd (upsert ty name md eb c d)) = papers d"
  by (simp add: upsert_def Let_def split: option.splits)

lemma upsertEntities_loop_papers:
  "papers (snd (upsertEntities_loop entities eb m d)) = papers d"
proof (induction entities arbitrary: m d)
  case Nil
  show ?case by simp
next
  case (Cons entity rest)
  obtain r d' where u: "upsert (ent_type entity) (ent_name entity) (entity_node_metadata entity)
                          eb (ent_confidence entity) d = (r, d')"
    by (cases "upsert (ent_type entity) (ent_name entity) (entity_node_metadata entity)
                 eb (ent_confidence entity) d")
  then have p: "papers d' = papers d"
    using upsert_papers[of "ent_type entity" "ent_name entity" "entity_node_metadata entity"
        eb "ent_confidence entity" d] by simp
  show ?case using u p Cons.IH[where d=d'] by (cases r) simp_all
qed

lemma upsertEntities_papers [simp]:
  "papers (snd (upsertEntities entities eb d)) = papers d"
  by (simp add: upsertEntities_def upsertEntities_loop_papers)

lemma create_for_papers: "create_for rel s t eb d = (r, d') \<Longrightarrow> papers d' = papers d"
  by (auto simp: create_for_def EdgeRepository_create_def split: option.splits if_splits)

lemma loop_papers:
  "papers (snd (createRelationships_loop w rels pid m eb n d)) = papers d"
proof (induction rels arbitrary: n d)
  case Nil
  show ?case by simp
next
  case (Cons rel rest)
  show ?case
  proof (cases rule: loop_cases[where w=w and pid=pid and m=m and d=d and rel=rel and eb=eb])
    case skip
    then show ?thesis using Cons.IH by (simp add: loop_skip)
  next
    case (create s t r d')
    then show ?thesis
      using Cons.IH[where d=d'] create_for_papers[OF create(3)] by (simp add: loop_create)
  qed
qed

lemma createRelationships_papers [simp]:
  "papers (snd (createRelationships w rels pid m eb d)) = papers d"
  by (simp add: createRelationships_def loop_papers)

lemma status_of_updateStatus:
  assumes "pid \<in> paper_id ` set (papers d)"
  shows "set (status_of pid (updateStatus pid st d)) = {st}"
proof -
  let ?P = "\<lambda>p. paper_id p = pid"
  let ?g = "\<lambda>p. p\<lparr>processing_status := st\<rparr>"
  have "filter ?P (map (\<lambda>p. if ?P p then ?g p else p) (papers d)) = map ?g (filter ?P (papers d))"
    by (rule filter_map_update) simp
  then have "status_of pid (updateStatus pid st d) = map (\<lambda>p. st) (filter ?P (papers d))"
    by (simp add: status_of_def updateStatus_def)
  moreover have "filter ?P (papers d) \<noteq> []"
    using assms by (auto simp: filter_empty_conv)
  ultimately show ?thesis by (cases "filter ?P (papers d)") auto
qed

lemma updateStatus_ids [simp]:
  "paper_id ` set (papers (updateStatus pid st d)) = paper_id ` set (papers d)"
proof -
  have "map paper_id (map (\<lambda>p. if paper_id p = pid then p\<lparr>processing_status := st\<rparr> else p)
                         (papers d)) = map paper_id (papers d)"
    by (rule map_key_update) simp
  then have "set (map paper_id (papers (updateStatus pid st d))) = set (map paper_id (papers d))"
    by (simp add: updateStatus_def del: map_map set_map)
  then show ?thesis by simp
qed

lemma PaperRepository_create_row:
  assumes "PaperRepository_create paperData d = (Inr p, d0)"
  shows "paper_id p \<in> paper_id ` set (papers d0)"
proof -
  obtain r d1 where u: "upsert ''paper'' (pd_title paperData) (paper_node_metadata paperData)
                          ''system'' 1 d = (r, d1)"
    by (cases "upsert ''paper'' (pd_title paperData) (paper_node_metadata paperData)
                 ''system'' 1 d")
  show ?thesis
  proof (cases r)
    case (Inl e)
    with u assms show ?thesis by (simp add: PaperRepository_create_def)
  next
    case (Inr nodeId)
    show ?thesis
    proof (cases "case or_null (pd_arxiv_id paperData) of
                    None \<Rightarrow> None
                  | Some a \<Rightarrow> find (\<lambda>p. arxiv_id p = Some a) (papers d1)")
      case None
      with u Inr assms show ?thesis
        by (auto simp: PaperRepository_create_def Let_def split: if_splits)
    next
      case (Some existing)
      then obtain a where "find (\<lambda>p. arxiv_id p = Some a) (papers d1) = Some existing"
        by (auto split: option.splits)
      then have ex: "existing \<in> set (papers d1)" and ax: "arxiv_id existing = Some a"
        by (auto simp: find_Some_iff)
      from u Inr Some assms have
        p: "p = existing\<lparr>title := pd_title paperData,
                          abstract := or_null (pd_abstract paperData)\<rparr>" and
        d0: "d0 = d1\<lparr>papers :=
                      map (\<lambda>p. if arxiv_id p = arxiv_id existing
                               then p\<lparr>title := pd_title paperData,
                                      abstract := or_null (pd_abstract paperData)\<rparr>
                               else p)
                        (papers d1)\<rparr>"
        by (auto simp: PaperRepository_create_def Let_def)
      have "p \<in> set (papers d0)"
        using ex unfolding p d0 by (auto simp: image_iff intro!: bexI[of _ existing])
      then show ?thesis by (rule imageI)
    qed
  qed
qed

text \<open>
  Claim C5. When \<^verbatim>\<open>PaperRepository.create\<close> has returned the paper, its row is in the
  store, with status \<^verbatim>\<open>'processing'\<close>, before the first stage starts. \<^verbatim>\<open>ingestPaper\<close>
  then fails exactly when the orchestrator or the upsert of the entities fails, with
  that error; in that case the status of the paper is \<^verbatim>\<open>'failed'\<close> (the row is still
  there), and otherwise it is \<^verbatim>\<open>'completed'\<close>.
\<close>

theorem ingestPaper_status:
  assumes c: "PaperRepository_create paperData d = (Inr p, d0)"
  shows "paper_id p \<in> paper_id ` set (papers d0)
       \<and> set (status_of (paper_id p) (updateStatus (paper_id p) ''processing'' d0))
           = {''processing''}
       \<and> fst (ingestPaper w paperData d) =
           (case processPaper w p (pd_full_text paperData)
                   (updateStatus (paper_id p) ''processing'' d0) of
              (Inl e, d2) \<Rightarrow> Inl e
            | (Inr analysis, d2) \<Rightarrow>
                (case upsertEntities (pa_entities analysis) ''EntityExtractor'' d2 of
                   (Inl e, d3) \<Rightarrow> Inl e
                 | (Inr entityMap, d3) \<Rightarrow> Inr (p, analysis)))
       \<and> set (status_of (paper_id p) (snd (ingestPaper w paperData d))) =
           (case fst (ingestPaper w paperData d) of
              Inl e \<Rightarrow> {''failed''}
            | Inr r \<Rightarrow> {''completed''})"
proof -
  let ?pid = "paper_id p"
  let ?d1 = "updateStatus ?pid ''processing'' d0"
  have row: "?pid \<in> paper_id ` set (papers d0)"
    by (rule PaperRepository_create_row[OF c])
  then have row1: "?pid \<in> paper_id ` set (papers ?d1)" by simp
  have st1: "set (status_of ?pid ?d1) = {''processing''}"
    by (rule status_of_updateStatus[OF row])
  obtain r2 d2 where pp: "processPaper w p (pd_full_text paperData) ?d1 = (r2, d2)"
    by (cases "processPaper w p (pd_full_text paperData) ?d1")
  then have p2: "papers d2 = papers ?d1"
    using processPaper_papers[of w p "pd_full_text paperData" ?d1] by simp
  have rest: "fst (ingestPaper w paperData d) =
           (case processPaper w p (pd_full_text paperData) ?d1 of
              (Inl e, d2) \<Rightarrow> Inl e
            | (Inr analysis, d2) \<Rightarrow>
                (case upsertEntities (pa_entities analysis) ''EntityExtractor'' d2 of
                   (Inl e, d3) \<Rightarrow> Inl e
                 | (Inr entityMap, d3) \<Rightarrow> Inr (p, analysis)))
       \<and> set (status_of ?pid (snd (ingestPaper w paperData d))) =
           (case fst (ingestPaper w paperData d) of
              Inl e \<Rightarrow> {''failed''}
            | Inr r \<Rightarrow> {''completed''})"
  proof (cases r2)
    case (Inl e)
    have "ingestPaper w paperData d = (Inl e, updateStatus ?pid ''failed'' d2)"
      using c pp Inl by (simp add: ingestPaper_def Let_def)
    moreover have "?pid \<in> paper_id ` set (papers d2)" using row1 p2 by simp
    ultimately show ?thesis using pp Inl by (simp add: status_of_updateStatus)
  next
    case (Inr analysis)
    obtain r3 d3 where ue: "upsertEntities (pa_entities analysis) ''EntityExtractor'' d2 = (r3, d3)"
      by (cases "upsertEntities (pa_entities analysis) ''EntityExtractor'' d2")
    then have p3: "papers d3 = papers d2"
      using upsertEntities_papers[of "pa_entities analysis" "''EntityExtractor''" d2] by simp
    have in3: "?pid \<in> paper_id ` set (papers d3)" using row1 p2 p3 by simp
    show ?thesis
    proof (cases r3)
      case (Inl e)
      have "ingestPaper w paperData d = (Inl e, updateStatus ?pid ''failed'' d3)"
        using c pp Inr ue Inl by (simp add: ingestPaper_def Let_def)
      then show ?thesis using pp Inr ue Inl in3 by (simp add: status_of_updateStatus)
    next
      case m: (Inr entityMap)
      obtain n d4 where cr: "createRelationships w (pa_relationships analysis) ?pid entityMap
                               ''RelationshipExtractor'' d3 = (n, d4)"
        by (cases "createRelationships w (pa_relationships analysis) ?pid entityMap
                     ''RelationshipExtractor'' d3")
      then have p4: "papers d4 = papers d3"
        using createRelationships_papers[of w "pa_relationships analysis" ?pid entityMap
            "''RelationshipExtractor''" d3] by simp
      have "ingestPaper w paperData d = (Inr (p, analysis), updateStatus ?pid ''completed'' d4)"
        using c pp Inr ue m cr by (simp add: ingestPaper_def Let_def)
      moreover have "?pid \<in> paper_id ` set (papers d4)" using in3 p4 by simp
      ultimately show ?thesis using pp Inr ue m by (simp add: status_of_updateStatus)
    qed
  qed
  from row st1 rest show ?thesis by blast
qed

text \<open>Runs of the pipeline in a world whose language model answers by the text it is given.\<close>

lemma ex_process_nothing:
  "processPaper ex_world p ''nothing'' d =
     (Inr \<lparr>pa_paper_id = paper_id p, pa_entities = [], pa_relationships = []\<rparr>,
      logExtraction (paper_id p) ''RelationshipExtractor'' ''relationship''
        [(''entity_count'', 0), (''existing_papers'', length (getExistingPapers d))]
        [(''relationship_count'', 0)] True None
        (logExtraction (paper_id p) ''EntityExtractor'' ''entity''
           [(''text_length'', length ''nothing'')] [(''entity_count'', 0)] True None d))"
proof -
  have e: "EntityExtractorAgent_process ex_world p ''nothing'' = Inr []"
    by (simp add: EntityExtractorAgent_process_def ex_world_def ex_entity_llm_def)
  have r: "RelationshipExtractorAgent_process ex_world p [] ''nothing''
             (Some (getExistingPapers d)) = Inr []"
    by (simp add: RelationshipExtractorAgent_process_def ex_world_def ex_relationship_llm_def)
  show ?thesis
    using processPaper_success[OF e r]
    by (simp add: validateEntities_def validateRelationships_def)
qed

lemma ex_process_bad_relationships:
  "fst (processPaper ex_world p ''bad relationships'' d)
     = Inl (ExternalServiceError ''rate limit'')"
proof -
  have e: "EntityExtractorAgent_process ex_world p ''bad relationships'' = Inr ex_entities"
    by (simp add: EntityExtractorAgent_process_def ex_world_def ex_entity_llm_def
          ex_entities_def)
  have r: "RelationshipExtractorAgent_process ex_world p ex_entities ''bad relationships''
             (Some (getExistingPapers d)) = Inl (ExternalServiceError ''rate limit'')"
    by (simp add: RelationshipExtractorAgent_process_def ex_world_def ex_relationship_llm_def)
  show ?thesis
    using processPaper_relationship_error[OF e r] by simp
qed

lemma logExtraction_fields [simp]:
  "nodes (logExtraction pid a ty i out s e d) = nodes d"
  "next_uuid (logExtraction pid a ty i out s e d) = next_uuid d"
  by (simp_all add: logExtraction_eq)

lemma processPaper_fields [simp]:
  "nodes (snd (processPaper w p fullText d)) = nodes d"
  "next_uuid (snd (processPaper w p fullText d)) = next_uuid d"
proof -
  show "nodes (snd (processPaper w p fullText d)) = nodes d"
  proof (cases "EntityExtractorAgent_process w p fullText")
    case (Inl e)
    then show ?thesis by (simp add: processPaper_entity_error)
  next
    case (Inr entities)
    then show ?thesis
      by (cases "RelationshipExtractorAgent_process w p entities fullText
                   (Some (getExistingPapers d))")
         (simp_all add: processPaper_relationship_error processPaper_success)
  qed
  show "next_uuid (snd (processPaper w p fullText d)) = next_uuid d"
  proof (cases "EntityExtractorAgent_process w p fullText")
    case (Inl e)
    then show ?thesis by (simp add: processPaper_entity_error)
  next
    case (Inr entities)
    then show ?thesis
      by (cases "RelationshipExtractorAgent_process w p entities fullText
                   (Some (getExistingPapers d))")
         (simp_all add: processPaper_relationship_error processPaper_success)
  qed
qed

lemma updateStatus_fields [simp]:
  "nodes (updateStatus pid st d) = nodes d"
  "next_uuid (updateStatus pid st d) = next_uuid d"
  "papers (updateStatus pid st d) =
     map (\<lambda>p. if paper_id p = pid then p\<lparr>processing_status := st\<rparr> else p) (papers d)"
  by (simp_all add: updateStatus_def)

lemma ingestPaper_unfold:
  assumes "PaperRepository_create pd d = (Inr p, d0)"
  shows "ingestPaper w pd d =
     (case processPaper w p (pd_full_text pd)
             (updateStatus (paper_id p) ''processing'' d0) of
        (Inl e, d2) \<Rightarrow> (Inl e, updateStatus (paper_id p) ''failed'' d2)
      | (Inr analysis, d2) \<Rightarrow>
          (case upsertEntities (pa_entities analysis) ''EntityExtractor'' d2 of
             (Inl e, d3) \<Rightarrow> (Inl e, updateStatus (paper_id p) ''failed'' d3)
           | (Inr entityMap, d3) \<Rightarrow>
               (case createRelationships w (pa_relationships analysis) (paper_id p)
                       entityMap ''RelationshipExtractor'' d3 of
                  (edgeCount, d4) \<Rightarrow>
                    (Inr (p, analysis), updateStatus (paper_id p) ''completed'' d4))))"
  using assms by (simp add: ingestPaper_def Let_def)

lemma status_other:
  "pid \<notin> paper_id ` set xs \<Longrightarrow>
   map (\<lambda>p. if paper_id p = pid then g p else p) xs = xs"
  by (induction xs) auto

lemma ex_create:
  assumes fresh: "find (node_key_is ''paper'' (normalizeName t)) (nodes d) = None"
      and pk: "next_uuid d \<notin> paper_id ` set (papers d)"
  shows "\<exists>p d0. PaperRepository_create (ex_paper_data t text) d = (Inr p, d0)
           \<and> paper_id p = next_uuid d"
proof -
  have ty: "''paper'' \<in> set node_type_enum" by (simp add: node_type_enum_def)
  have on: "or_null None = None" by (simp add: or_null_def)
  show ?thesis
    using upsert_fresh[OF ty fresh, of "paper_node_metadata (ex_paper_data t text)"
        "''system''" 1] pk
    by (simp add: PaperRepository_create_def ex_paper_data_def on Let_def)
qed

lemma ex_ingest:
  assumes fresh: "find (node_key_is ''paper'' (normalizeName t)) (nodes d) = None"
      and pk: "next_uuid d \<notin> paper_id ` set (papers d)"
      and tx: "text = ''nothing'' \<or> text = ''bad relationships''"
  shows "fulfilled (fst (ingestPaper ex_world (ex_paper_data t text) d)) = (text = ''nothing'')
       \<and> map (\<lambda>p. (paper_id p, processing_status p))
             (papers (snd (ingestPaper ex_world (ex_paper_data t text) d)))
           = map (\<lambda>p. (paper_id p, processing_status p)) (papers d) @
             [(next_uuid d, if text = ''nothing'' then ''completed'' else ''failed'')]
       \<and> map (\<lambda>n. (node_type n, canonical_name n))
             (nodes (snd (ingestPaper ex_world (ex_paper_data t text) d)))
           = map (\<lambda>n. (node_type n, canonical_name n)) (nodes d) @
             [(''paper'', normalizeName t)]
       \<and> next_uuid (snd (ingestPaper ex_world (ex_paper_data t text) d)) = Suc (next_uuid d)"
proof -
  define pd where "pd = ex_paper_data t text"
  define pid where "pid = next_uuid d"
  define node where
    "node = \<lparr>node_id = pid, node_type = ''paper'', node_name = t,
             canonical_name = normalizeName t, node_metadata = paper_node_metadata pd,
             extraction_confidence = 1, node_extracted_by = ''system''\<rparr>"
  define d1 where "d1 = d\<lparr>nodes := nodes d @ [node], next_uuid := Suc pid\<rparr>"
  define p where
    "p = \<lparr>paper_id = pid, title = t, abstract = None, full_text = or_null (Some text),
          authors = [], arxiv_id = None, publication_date = None, venue = None,
          processing_status = ''pending''\<rparr>"
  define d0 where "d0 = d1\<lparr>papers := papers d @ [p]\<rparr>"
  define dp where "dp = updateStatus pid ''processing'' d0"
  have ty: "''paper'' \<in> set node_type_enum" by (simp add: node_type_enum_def)
  have t': "pd_title pd = t" "pd_full_text pd = text" "pd_arxiv_id pd = None"
    "pd_abstract pd = None" "pd_authors pd = []" "pd_publication_date pd = None"
    "pd_venue pd = None"
    by (simp_all add: pd_def ex_paper_data_def)
  have u: "upsert ''paper'' t (paper_node_metadata pd) ''system'' 1 d = (Inr pid, d1)"
    using upsert_fresh[OF ty, of t d "paper_node_metadata pd" "''system''" 1] fresh
    by (simp add: pid_def d1_def node_def)
  have on: "or_null None = None" by (simp add: or_null_def)
  have c: "PaperRepository_create pd d = (Inr p, d0)"
    using pk
    by (simp add: PaperRepository_create_def t' u on d1_def d0_def p_def pid_def Let_def)
  have pidp: "paper_id p = pid" by (simp add: p_def)
  have fields: "nodes dp = nodes d @ [node]" "next_uuid dp = Suc pid"
    "papers dp = papers d @ [p\<lparr>processing_status := ''processing''\<rparr>]"
    using pk by (simp_all add: dp_def d0_def d1_def pidp status_other pid_def)
  have final: "map (\<lambda>q. (paper_id q, processing_status q))
          (papers (updateStatus pid st dx)) =
        map (\<lambda>q. (paper_id q, processing_status q)) (papers d) @ [(pid, st)]"
    if "papers dx = papers dp" for st dx
    using that pk by (simp add: fields pidp status_other pid_def)
  have nodekeys: "map (\<lambda>n. (node_type n, canonical_name n)) (nodes dp)
                  = map (\<lambda>n. (node_type n, canonical_name n)) (nodes d) @
                    [(''paper'', normalizeName t)]"
    by (simp add: fields node_def)
  from tx show ?thesis
  proof
    assume n: "text = ''nothing''"
    obtain dl where pp: "processPaper ex_world p ''nothing'' dp =
        (Inr \<lparr>pa_paper_id = paper_id p, pa_entities = [], pa_relationships = []\<rparr>, dl)"
      using ex_process_nothing[of p dp] by simp
    have dl: "papers dl = papers dp" "nodes dl = nodes dp" "next_uuid dl = next_uuid dp"
      using processPaper_papers[of ex_world p "''nothing''" dp]
            processPaper_fields[of ex_world p "''nothing''" dp] pp by simp_all
    have r: "ingestPaper ex_world pd d =
               (Inr (p, \<lparr>pa_paper_id = paper_id p, pa_entities = [], pa_relationships = []\<rparr>),
                updateStatus pid ''completed'' dl)"
      using pp n
      by (simp add: ingestPaper_unfold[OF c] t' dp_def[symmetric] pidp upsertEntities_def
            createRelationships_def)
    show ?thesis
      unfolding pd_def[symmetric] r
      using final[OF dl(1), of "''completed''"] nodekeys dl fields n
      by (simp add: fulfilled_def pid_def)
  next
    assume b: "text = ''bad relationships''"
    obtain dl where pp: "processPaper ex_world p ''bad relationships'' dp =
        (Inl (ExternalServiceError ''rate limit''), dl)"
      using ex_process_bad_relationships[of p dp]
      by (cases "processPaper ex_world p ''bad relationships'' dp") simp
    have dl: "papers dl = papers dp" "nodes dl = nodes dp" "next_uuid dl = next_uuid dp"
      using processPaper_papers[of ex_world p "''bad relationships''" dp]
            processPaper_fields[of ex_world p "''bad relationships''" dp] pp by simp_all
    have r: "ingestPaper ex_world pd d =
               (Inl (ExternalServiceError ''rate limit''), updateStatus pid ''failed'' dl)"
      using pp b
      by (simp add: ingestPaper_unfold[OF c] t' dp_def[symmetric] pidp)
    show ?thesis
      unfolding pd_def[symmetric] r
      using final[OF dl(1), of "''failed''"] nodekeys dl fields b
      by (simp add: fulfilled_def pid_def)
  qed
qed

theorem ingestPaper_status_witness:
  "\<not> fulfilled (fst (ingestPaper ex_world (ex_paper_data ''P3'' ''bad relationships'')
                        empty_db))
   \<and> set (status_of 0 (snd (ingestPaper ex_world
                               (ex_paper_data ''P3'' ''bad relationships'') empty_db)))
       = {''failed''}
   \<and> fulfilled (fst (ingestPaper ex_world (ex_paper_data ''P1'' ''nothing'') empty_db))
   \<and> set (status_of 0 (snd (ingestPaper ex_world (ex_paper_data ''P1'' ''nothing'')
                               empty_db)))
       = {''completed''}"
proof -
  have fresh: "find (node_key_is ''paper'' (normalizeName t)) (nodes empty_db) = None" for t
    by (simp add: empty_db_def)
  have pk: "next_uuid empty_db \<notin> paper_id ` set (papers empty_db)"
    by (simp add: empty_db_def)
  have z: "next_uuid empty_db = 0" by (simp add: empty_db_def)
  obtain p3 d3 where c3: "PaperRepository_create (ex_paper_data ''P3'' ''bad relationships'')
                            empty_db = (Inr p3, d3)" and i3: "paper_id p3 = 0"
    using ex_create[OF fresh pk, of "''P3''" "''bad relationships''"] z by auto
  obtain p1 d1 where c1: "PaperRepository_create (ex_paper_data ''P1'' ''nothing'')
                            empty_db = (Inr p1, d1)" and i1: "paper_id p1 = 0"
    using ex_create[OF fresh pk, of "''P1''" "''nothing''"] z by auto
  have f3: "\<not> fulfilled (fst (ingestPaper ex_world
                (ex_paper_data ''P3'' ''bad relationships'') empty_db))"
    using ex_ingest[OF fresh pk, of "''bad relationships''" "''P3''"] by simp
  have f1: "fulfilled (fst (ingestPaper ex_world (ex_paper_data ''P1'' ''nothing'') empty_db))"
    using ex_ingest[OF fresh pk, of "''nothing''" "''P1''"] by simp
  have s3: "set (status_of 0 (snd (ingestPaper ex_world
                               (ex_paper_data ''P3'' ''bad relationships'') empty_db)))
       = {''failed''}"
    using ingestPaper_status[OF c3, of ex_world, THEN conjunct2, THEN conjunct2, THEN conjunct2] f3 i3
    by (cases "fst (ingestPaper ex_world (ex_paper_data ''P3'' ''bad relationships'')
                      empty_db)") (simp_all add: fulfilled_def)
  have s1: "set (status_of 0 (snd (ingestPaper ex_world (ex_paper_data ''P1'' ''nothing'')
                               empty_db))) = {''completed''}"
    using ingestPaper_status[OF c1, of ex_world, THEN conjunct2, THEN conjunct2, THEN conjunct2] f1 i1
    by (cases "fst (ingestPaper ex_world (ex_paper_data ''P1'' ''nothing'') empty_db)")
       (simp_all add: fulfilled_def)
  from f3 s3 f1 s1 show ?thesis by blast
qed


section \<open>Asynchronous calls: a call that runs alone\<close>

text \<open>
  Run alone, the calls of the pipeline compute what the functions of the sections above
  compute.
\<close>

lemma run_bind: "run (bind t f) d = (case run t d of (a, d') \<Rightarrow> run (f a) d')"
  by (induction t arbitrary: d) simp_all

lemma run_await: "run (await stmt) d = stmt d"
  by (simp add: await_def)

lemma PaperRepository_create_split:
  "PaperRepository_create pd d =
     (case upsert ''paper'' (pd_title pd) (paper_node_metadata pd) ''system'' 1 d of
        (Inl e, d1) \<Rightarrow> (Inl e, d1)
      | (Inr nodeId, d1) \<Rightarrow> insert_paper pd nodeId d1)"
  by (simp add: PaperRepository_create_def insert_paper_def split: prod.splits sum.splits)

lemma run_PaperRepository_create_async:
  "run (PaperRepository_create_async pd) d = PaperRepository_create pd d"
  by (simp add: PaperRepository_create_async_def PaperRepository_create_split run_bind run_await
        split: prod.splits sum.splits)

lemma run_processPaper_async:
  "run (processPaper_async w p fullText) d = processPaper w p fullText d"
  by (simp add: processPaper_async_def processPaper_def logExtraction_async_def run_bind
        run_await Let_def split: prod.splits sum.splits)

lemma run_upsertEntities_loop_async:
  "run (upsertEntities_loop_async es by' m) d = upsertEntities_loop es by' m d"
  by (induction es arbitrary: m d) (simp_all add: run_bind run_await split: prod.splits sum.splits)

lemma run_resolveEntityId_async:
  "run (resolveEntityId_async w n pid m) d = (resolveEntityId w n pid m d, d)"
  by (simp add: resolveEntityId_async_def resolveEntityId_def run_bind run_await Let_def
        split: option.splits)

lemma run_createRelationships_loop_async:
  "run (createRelationships_loop_async w rs pid m eb c) d
     = createRelationships_loop w rs pid m eb c d"
  by (induction rs arbitrary: c d)
     (simp_all add: createRelationships_loop.simps(2) run_bind run_await
        run_resolveEntityId_async Let_def split: prod.splits sum.splits option.splits)

lemma run_ingestPaper_async: "run (ingestPaper_async w pd) d = ingestPaper w pd d"
  by (simp add: ingestPaper_async_def ingestPaper_def run_bind run_PaperRepository_create_async
        run_processPaper_async updateStatus_async_def run_await upsertEntities_async_def
        upsertEntities_def run_upsertEntities_loop_async createRelationships_async_def
        createRelationships_def run_createRelationships_loop_async Let_def
        split: prod.splits sum.splits)


section \<open>Batch ingestion: batches, outcomes and counters\<close>

declare chunks.simps [simp del]

lemma chunks_Nil [simp]: "chunks n [] = []"
  by (simp add: chunks.simps)

lemma chunks_step: "0 < n \<Longrightarrow> xs \<noteq> [] \<Longrightarrow> chunks n xs = take n xs # chunks n (drop n xs)"
  by (subst chunks.simps) simp

lemma chunks_empty_iff: "0 < n \<Longrightarrow> (chunks n xs = []) = (xs = [])"
  by (subst chunks.simps) simp

lemma concat_chunks: "0 < n \<Longrightarrow> concat (chunks n xs) = xs"
proof (induction n xs rule: chunks.induct)
  case (1 n xs)
  show ?case
  proof (cases "xs = []")
    case True
    then show ?thesis by simp
  next
    case False
    with 1 show ?thesis by (simp add: chunks_step)
  qed
qed

lemma chunks_sizes:
  "0 < n \<Longrightarrow> c \<in> set (chunks n xs) \<Longrightarrow> c \<noteq> [] \<and> length c \<le> n"
proof (induction n xs rule: chunks.induct)
  case (1 n xs)
  show ?case
  proof (cases "xs = []")
    case True
    with 1 show ?thesis by simp
  next
    case False
    with 1 show ?thesis by (auto simp: chunks_step)
  qed
qed

lemma chunks_full:
  "0 < n \<Longrightarrow> c \<in> set (butlast (chunks n xs)) \<Longrightarrow> length c = n"
proof (induction n xs rule: chunks.induct)
  case (1 n xs)
  show ?case
  proof (cases "xs = []")
    case True
    with 1 show ?thesis by simp
  next
    case False
    show ?thesis
    proof (cases "drop n xs = []")
      case True
      with 1 False show ?thesis by (simp add: chunks_step)
    next
      case d: False
      then have "n < length xs" by simp
      moreover have "chunks n (drop n xs) \<noteq> []" using d 1(2) by (simp add: chunks_empty_iff)
      ultimately show ?thesis using 1 False by (auto simp: chunks_step)
    qed
  qed
qed

lemma slice_index_nat: "slice_index len (Num (real k)) = min k len"
  by (simp add: slice_index_def Let_def min_def)

lemma js_slice_chunk:
  "js_slice ps (Num (real k)) (Num (real (k + n))) = take n (drop k ps)"
  unfolding js_slice_def Let_def slice_index_nat
proof (cases "k \<le> length ps")
  case True
  have "min (k + n) (length ps) - k = min n (length ps - k)"
    using True by (auto simp: min_def)
  then show "take (min (k + n) (length ps) - min k (length ps)) (drop (min k (length ps)) ps)
               = take n (drop k ps)"
    using True by (simp add: min_absorb1 min_def)
next
  case False
  then show "take (min (k + n) (length ps) - min k (length ps)) (drop (min k (length ps)) ps)
               = take n (drop k ps)"
    by (simp add: min_def)
qed

lemma interleave_length: "length (fst (interleave sched ts d)) = length ts"
  by (induction sched arbitrary: ts d) (simp_all add: split_beta)

lemma settle_length: "length (fst (settle ts d)) = length ts"
  by (induction ts arbitrary: d) (simp_all add: split_beta)

lemma allSettled_length: "length (fst (allSettled sched ts d)) = length ts"
  by (simp add: allSettled_def split_beta settle_length interleave_length)

lemma run_chunks_length:
  "length (fst (run_chunks schedule w c cs d)) = length (concat cs)"
proof (induction cs arbitrary: c d)
  case Nil
  then show ?case by simp
next
  case (Cons b bs)
  show ?case
    using allSettled_length[of "schedule c" "map (ingestPaper_async w) b" d]
      Cons.IH[of "Suc c" "snd (allSettled (schedule c) (map (ingestPaper_async w) b) d)"]
    by (simp add: split_beta)
qed

lemma ingestPapers_loop_result:
  assumes n: "0 < n"
  shows "ingestPapers_loop schedule w ps (Num (real n)) (Num (real k)) s d =
     Some (\<lparr>successCount = successCount s +
                length (filter fulfilled
                  (fst (run_chunks schedule w (length (batches s)) (chunks n (drop k ps)) d))),
            failCount = failCount s +
                length (filter (\<lambda>r. \<not> fulfilled r)
                  (fst (run_chunks schedule w (length (batches s)) (chunks n (drop k ps)) d))),
            batches = batches s @ chunks n (drop k ps),
            outcomes = outcomes s @
                fst (run_chunks schedule w (length (batches s)) (chunks n (drop k ps)) d),
            delays = delays s + (length (chunks n (drop k ps)) - 1)\<rparr>,
           snd (run_chunks schedule w (length (batches s)) (chunks n (drop k ps)) d))"
proof (induction "length ps - k" arbitrary: k s d rule: less_induct)
  case less
  show ?case
  proof (cases "k < length ps")
    case False
    then have "drop k ps = []" by simp
    with False show ?thesis
      by (subst ingestPapers_loop.simps) simp
  next
    case True
    define rem where "rem = drop k ps"
    define batch where "batch = take n rem"
    define rest where "rest = drop n rem"
    define c where "c = length (batches s)"
    define r1 where "r1 = fst (allSettled (schedule c) (map (ingestPaper_async w) batch) d)"
    define d1 where "d1 = snd (allSettled (schedule c) (map (ingestPaper_async w) batch) d)"
    define s1 where
      "s1 = \<lparr>successCount = successCount s + length (filter fulfilled r1),
             failCount = failCount s + length (filter (\<lambda>r. \<not> fulfilled r) r1),
             batches = batches s @ [batch],
             outcomes = outcomes s @ r1,
             delays = (if k + n < length ps then delays s + 1 else delays s)\<rparr>"
    have rem: "rem \<noteq> []" using True by (simp add: rem_def)
    have slice: "js_slice ps (Num (real k)) (Num (real (k + n))) = batch"
      unfolding batch_def rem_def by (rule js_slice_chunk)
    have step: "ingestPapers_loop schedule w ps (Num (real n)) (Num (real k)) s d
                  = ingestPapers_loop schedule w ps (Num (real n)) (Num (real (k + n))) s1 d1"
      using True
      by (subst ingestPapers_loop.simps)
         (simp add: slice[simplified] s1_def r1_def d1_def c_def split: prod.splits)
    have dr: "drop (k + n) ps = rest"
      by (simp add: rest_def rem_def add.commute)
    have m: "length ps - (k + n) < length ps - k"
      using True n by linarith
    have c1: "length (batches s1) = Suc c" by (simp add: s1_def c_def)
    note IH = less.hyps[OF m, of s1 d1, unfolded dr c1]
    have ch: "chunks n rem = batch # chunks n rest"
      unfolding batch_def rest_def by (rule chunks_step[OF n rem])
    have rc: "run_chunks schedule w c (chunks n rem) d
                = (r1 @ fst (run_chunks schedule w (Suc c) (chunks n rest) d1),
                   snd (run_chunks schedule w (Suc c) (chunks n rest) d1))"
      by (simp add: ch r1_def d1_def split: prod.splits)
    have "(k + n < length ps) = (rest \<noteq> [])"
      by (simp add: rest_def rem_def) linarith
    then have dl: "(if k + n < length ps then delays s + 1 else delays s)
                   + (length (chunks n rest) - 1)
                 = delays s + (length (chunks n rem) - 1)"
      using chunks_empty_iff[OF n, of rest]
      by (cases "chunks n rest") (simp_all add: ch)
    show ?thesis
      unfolding step IH rem_def[symmetric] c_def[symmetric] rc using dl by (simp add: s1_def ch)
  qed
qed

lemma ingestPapers_run:
  assumes "0 < n"
  shows "ingestPapers schedule w ps (Num (real n)) d =
     Some (\<lparr>successCount =
                length (filter fulfilled (fst (run_chunks schedule w 0 (chunks n ps) d))),
            failCount =
                length (filter (\<lambda>r. \<not> fulfilled r)
                  (fst (run_chunks schedule w 0 (chunks n ps) d))),
            batches = chunks n ps,
            outcomes = fst (run_chunks schedule w 0 (chunks n ps) d),
            delays = length (chunks n ps) - 1\<rparr>,
           snd (run_chunks schedule w 0 (chunks n ps) d))"
  using ingestPapers_loop_result[OF assms, of schedule w ps 0
      "\<lparr>successCount = 0, failCount = 0, batches = [], outcomes = [], delays = 0\<rparr>" d]
  by (simp add: ingestPapers_def)

text \<open>
  Claim C6. For a batch size that is a whole number \<open>n\<close> of at least 1, and whatever the
  order in which the statements of the papers of a batch meet the database,
  \<^verbatim>\<open>ingestPapers\<close> returns. Its batches are consecutive pieces of the input:
  concatenated they give the input, none is empty or longer than \<open>n\<close>, and all but the
  last have exactly \<open>n\<close> papers. It waits once between two batches. The papers of a
  batch are started together and all of them are awaited: every paper has its outcome,
  fulfilled or rejected, whatever happened to the others, and the two counters are the
  numbers of fulfilled and of rejected outcomes, so they add up to the number of papers.
\<close>

theorem ingestPapers_summary:
  assumes "0 < n"
  shows "\<exists>s d'.
           ingestPapers schedule w ps (Num (real n)) d = Some (s, d')
         \<and> successCount s + failCount s = length ps
         \<and> concat (batches s) = ps
         \<and> (\<forall>b \<in> set (batches s). b \<noteq> [] \<and> length b \<le> n)
         \<and> (\<forall>b \<in> set (butlast (batches s)). length b = n)
         \<and> delays s = length (batches s) - 1
         \<and> run_chunks schedule w 0 (batches s) d = (outcomes s, d')
         \<and> length (outcomes s) = length ps
         \<and> successCount s = length (filter fulfilled (outcomes s))
         \<and> failCount s = length (filter (\<lambda>r. \<not> fulfilled r) (outcomes s))"
proof -
  let ?R = "run_chunks schedule w 0 (chunks n ps) d"
  let ?s = "\<lparr>successCount = length (filter fulfilled (fst ?R)),
             failCount = length (filter (\<lambda>r. \<not> fulfilled r) (fst ?R)),
             batches = chunks n ps,
             outcomes = fst ?R,
             delays = length (chunks n ps) - 1\<rparr>"
  have run: "ingestPapers schedule w ps (Num (real n)) d = Some (?s, snd ?R)"
    using ingestPapers_loop_result[OF assms, of schedule w ps 0
        "\<lparr>successCount = 0, failCount = 0, batches = [], outcomes = [], delays = 0\<rparr>" d]
    by (simp add: ingestPapers_def)
  have len: "length (fst ?R) = length ps"
    using run_chunks_length[of schedule w 0 "chunks n ps" d] concat_chunks[OF assms, of ps]
    by simp
  have "length (filter fulfilled (fst ?R)) + length (filter (\<lambda>r. \<not> fulfilled r) (fst ?R))
          = length (fst ?R)"
    by (rule sum_length_filter_compl)
  then have total: "successCount ?s + failCount ?s = length ps" using len by simp
  have cc: "concat (batches ?s) = ps" using concat_chunks[OF assms] by simp
  have sz: "\<forall>b \<in> set (batches ?s). b \<noteq> [] \<and> length b \<le> n"
    using chunks_sizes[OF assms] by auto
  have fl: "\<forall>b \<in> set (butlast (batches ?s)). length b = n"
    using chunks_full[OF assms] by auto
  show ?thesis
    apply (rule exI[of _ ?s], rule exI[of _ "snd ?R"])
    using run total cc sz fl len by simp
qed

text \<open>
  Five papers in one batch, the third of which fails in its relationship stage, with
  the statements of the five calls taken in turn.
\<close>

lemma ex_five_interleaved:
  "map fulfilled
     (fst (allSettled (round_robin 0) (map (ingestPaper_async ex_world) ex_five_papers)
             empty_db))
     = [True, True, False, True, True]
   \<and> map (\<lambda>p. (paper_id p, processing_status p))
        (papers (snd (allSettled (round_robin 0)
                        (map (ingestPaper_async ex_world) ex_five_papers) empty_db)))
     = [(0, ''completed''), (1, ''completed''), (2, ''failed''), (3, ''completed''),
        (4, ''completed'')]"
  by code_simp

theorem ingestPapers_summary_witness:
  "(0::nat) < 5
   \<and> (\<exists>s d'. ingestPapers round_robin ex_world ex_five_papers (Num 5) empty_db = Some (s, d')
          \<and> successCount s = 4 \<and> failCount s = 1
          \<and> successCount s + failCount s = length ex_five_papers
          \<and> batches s = [ex_five_papers] \<and> delays s = 0
          \<and> map fulfilled (outcomes s) = [True, True, False, True, True]
          \<and> map (\<lambda>p. (paper_id p, processing_status p)) (papers d')
              = [(0, ''completed''), (1, ''completed''), (2, ''failed''), (3, ''completed''),
                 (4, ''completed'')])"
proof -
  have h: "(0::nat) < 5" by simp
  from ingestPapers_summary[OF h, of round_robin ex_world ex_five_papers empty_db]
  obtain s d' where
    run: "ingestPapers round_robin ex_world ex_five_papers (Num 5) empty_db = Some (s, d')" and
    total: "successCount s + failCount s = length ex_five_papers" and
    rc: "run_chunks round_robin ex_world 0 (batches s) empty_db = (outcomes s, d')" and
    sc: "successCount s = length (filter fulfilled (outcomes s))"
    by auto
  have len: "length ex_five_papers = 5" by (simp add: ex_five_papers_def)
  have ch: "chunks 5 ex_five_papers = [ex_five_papers]"
    using chunks_step[of 5 ex_five_papers] len by (auto simp: ex_five_papers_def)
  have bs: "batches s = [ex_five_papers]"
    using run ingestPapers_run[OF h, of round_robin ex_world ex_five_papers empty_db] ch
    by auto
  define R where
    "R = allSettled (round_robin 0) (map (ingestPaper_async ex_world) ex_five_papers) empty_db"
  have o: "outcomes s = fst R" and d: "d' = snd R"
    using rc unfolding bs R_def by (simp_all add: split_beta)
  have f: "map fulfilled (outcomes s) = [True, True, False, True, True]"
    and st: "map (\<lambda>p. (paper_id p, processing_status p)) (papers d')
              = [(0, ''completed''), (1, ''completed''), (2, ''failed''), (3, ''completed''),
                 (4, ''completed'')]"
    using ex_five_interleaved unfolding o d R_def by simp_all
  have cnt: "length (filter P xs) = length (filter id (map P xs))" for P :: "'a \<Rightarrow> bool" and xs
    by (induction xs) simp_all
  have s4: "successCount s = 4" using sc f cnt[of fulfilled "outcomes s"] by simp
  have f1: "failCount s = 1" using total s4 len by simp
  have dl: "delays s = 0"
    using run ingestPapers_run[OF h, of round_robin ex_world ex_five_papers empty_db] ch
    by auto
  show ?thesis using run s4 f1 total bs dl f st by simp
qed

text \<open>
  In that run every paper asks for the completed papers before any paper of its batch
  is completed; were the calls to run one after the other, each would find the papers
  completed before it.
\<close>

lemma ex_five_overlap:
  "map (\<lambda>l. (log_paper_id l, input_data l))
     (filter (\<lambda>l. extraction_type l = ''relationship'')
        (extraction_logs (snd (allSettled (round_robin 0)
                                 (map (ingestPaper_async ex_world) ex_five_papers) empty_db))))
     = [(0, [(''entity_count'', 0), (''existing_papers'', 0)]),
        (1, [(''entity_count'', 0), (''existing_papers'', 0)]),
        (3, [(''entity_count'', 0), (''existing_papers'', 0)]),
        (4, [(''entity_count'', 0), (''existing_papers'', 0)])]
   \<and> map (\<lambda>l. (log_paper_id l, input_data l))
     (filter (\<lambda>l. extraction_type l = ''relationship'')
        (extraction_logs (snd (allSettled []
                                 (map (ingestPaper_async ex_world) ex_five_papers) empty_db))))
     = [(0, [(''entity_count'', 0), (''existing_papers'', 0)]),
        (1, [(''entity_count'', 0), (''existing_papers'', 1)]),
        (3, [(''entity_count'', 0), (''existing_papers'', 2)]),
        (4, [(''entity_count'', 0), (''existing_papers'', 3)])]"
  by code_simp

text \<open>
  With a batch size of 0, or below, the index of the \<^verbatim>\<open>for\<close> loop never passes the end
  of a non-empty input, and \<^verbatim>\<open>ingestPapers\<close> does not return.
\<close>

lemma ingestPapers_loop_diverges:
  assumes "ingestPapers_loop schedule w ps b i s d = Some r"
  shows "\<not> (\<exists>x y. b = Num x \<and> x \<le> 0 \<and> i = Num y \<and> y < real (length ps))"
proof (rule ingestPapers_loop.raw_induct
         [where P = "\<lambda>schedule w ps b i s d r.
                       \<not> (\<exists>x y. b = Num x \<and> x \<le> 0 \<and> i = Num y \<and> y < real (length ps))",
          OF _ assms])
  fix f :: "(nat \<Rightarrow> nat list) \<Rightarrow> world \<Rightarrow> paper_data list \<Rightarrow> number \<Rightarrow> number \<Rightarrow> summary \<Rightarrow> db
              \<Rightarrow> (summary \<times> db) option"
    and sc' w' and qs :: "paper_data list" and b' i' :: number and s' d' r'
  assume IH: "\<And>schedule w ps b i s d y.
                f schedule w ps b i s d = Some y \<Longrightarrow>
                \<not> (\<exists>x y. b = Num x \<and> x \<le> 0 \<and> i = Num y \<and> y < real (length ps))"
  assume st: "(if js_lt i' (Num (real (length qs)))
      then case allSettled (sc' (length (batches s')))
                  (map (ingestPaper_async w') (js_slice qs i' (js_add i' b'))) d' of
           (results, d'') \<Rightarrow>
             f sc' w' qs b' (js_add i' b')
              \<lparr>successCount = successCount s' + length (filter fulfilled results),
               failCount = failCount s' + length (filter (\<lambda>r. \<not> fulfilled r) results),
               batches = batches s' @ [js_slice qs i' (js_add i' b')],
               outcomes = outcomes s' @ results,
               delays = if js_lt (js_add i' b') (Num (real (length qs)))
                        then delays s' + 1 else delays s'\<rparr>
              d''
      else Some (s', d')) = Some r'"
  show "\<not> (\<exists>x y. b' = Num x \<and> x \<le> 0 \<and> i' = Num y \<and> y < real (length qs))"
  proof
    assume "\<exists>x y. b' = Num x \<and> x \<le> 0 \<and> i' = Num y \<and> y < real (length qs)"
    then obtain x y where a: "b' = Num x" "x \<le> 0" "i' = Num y" "y < real (length qs)"
      by blast
    with st obtain s'' d'' where "f sc' w' qs (Num x) (Num (y + x)) s'' d'' = Some r'"
      by (auto split: prod.splits)
    from IH[OF this] a show False by simp
  qed
qed

lemma ingestPapers_never_returns:
  assumes "x \<le> 0" and "ps \<noteq> []"
  shows "ingestPapers schedule w ps (Num x) d = None"
proof (cases "ingestPapers schedule w ps (Num x) d")
  case None
  then show ?thesis .
next
  case (Some r)
  then have "\<not> (\<exists>x' y. Num x = Num x' \<and> x' \<le> 0 \<and> Num 0 = Num y \<and> y < real (length ps))"
    unfolding ingestPapers_def by (rule ingestPapers_loop_diverges)
  with assms show ?thesis by simp
qed

theorem ingestPapers_zero_batch_size:
  "ingestPapers round_robin ex_world ex_five_papers (Num 0) empty_db = None"
  by (rule ingestPapers_never_returns) (simp_all add: ex_five_papers_def)

text \<open>
  With the batch size \<^verbatim>\<open>NaN\<close> the loop ends after one empty batch, and no paper is
  ingested.
\<close>

lemma interleave_Nil: "interleave sched [] d = ([], d)"
  by (induction sched) simp_all

lemma ingestPapers_loop_NaN: "ingestPapers_loop schedule w ps b NaN s d = Some (s, d)"
  by (subst ingestPapers_loop.simps) simp

lemma ingestPapers_NaN:
  "ingestPapers schedule w ps NaN d =
     Some (if ps = [] then \<lparr>successCount = 0, failCount = 0, batches = [], outcomes = [],
                              delays = 0\<rparr>
           else \<lparr>successCount = 0, failCount = 0, batches = [[]], outcomes = [],
                  delays = 0\<rparr>, d)"
  unfolding ingestPapers_def
  by (subst ingestPapers_loop.simps)
     (simp add: ingestPapers_loop_NaN js_slice_def slice_index_def allSettled_def
        interleave_Nil)

end
